theory Spec2Isabelle
  imports Complex_Main "HOL-Library.AList"
begin

section \<open>Errors and the street graph\<close>

text \<open>
  The Python exceptions the modelled code can raise.  A function that can raise returns
  \<open>error + 'a\<close>, with \<open>Inl\<close> for the exception.
\<close>

datatype error = KeyError | TypeError | ValueError | ZeroDivisionError | NetworkXError

text \<open>
  The value of the \<open>maxspeed\<close> attribute of an edge: a float, or a string as OpenStreetMap
  delivers it.
\<close>

datatype attr = Num real | Str string

text \<open>
  The attribute dictionary of an edge, restricted to the four keys the code reads.
  \<open>None\<close> means that the key is absent (\<open>datos.get(key)\<close> returns \<open>None\<close>).
\<close>

record edge_data =
  e_name :: "string option"
  e_length :: "real option"
  e_highway :: "string option"
  e_maxspeed :: "attr option"

text \<open>
  A networkx graph: the nodes in insertion order, the coordinates of the nodes, and for
  every node its adjacency dictionary (neighbour and edge attributes, in insertion
  order).  \<open>directed\<close> tells a \<open>DiGraph\<close> from a \<open>Graph\<close>; in a \<open>Graph\<close> the
  adjacency is symmetric.
\<close>

record 'n graph =
  nodes :: "'n list"
  node_x :: "'n \<rightharpoonup> real"
  node_y :: "'n \<rightharpoonup> real"
  adj :: "'n \<Rightarrow> ('n \<times> edge_data) list"
  directed :: bool

text \<open>\<open>G[u][v]\<close>: the attributes of the edge, \<open>KeyError\<close> when there is none.\<close>

definition edge_attrs :: "'n graph \<Rightarrow> 'n \<Rightarrow> 'n \<Rightarrow> error + edge_data" where
  "edge_attrs G u v =
     (if u \<in> set (nodes G)
      then (case map_of (adj G u) v of None \<Rightarrow> Inl KeyError | Some d \<Rightarrow> Inr d)
      else Inl KeyError)"

text \<open>\<open>G.neighbors(v)\<close>: networkx raises \<open>NetworkXError\<close> for a node that is not in the graph.\<close>

definition neighbors :: "'n graph \<Rightarrow> 'n \<Rightarrow> error + 'n list" where
  "neighbors G v = (if v \<in> set (nodes G) then Inr (map fst (adj G v)) else Inl NetworkXError)"

text \<open>\<open>G.nodes[n]["x"]\<close> and \<open>G.nodes[n]["y"]\<close>.\<close>

definition node_coord :: "'n graph \<Rightarrow> ('n graph \<Rightarrow> 'n \<rightharpoonup> real) \<Rightarrow> 'n \<Rightarrow> error + real" where
  "node_coord G sel n =
     (if n \<in> set (nodes G)
      then (case sel G n of None \<Rightarrow> Inl KeyError | Some r \<Rightarrow> Inr r)
      else Inl KeyError)"

text \<open>
  A graph as networkx keeps it: no node twice, the keys of an adjacency dictionary are
  distinct nodes of the graph, and only nodes have neighbours.
\<close>

definition wf_graph :: "'n graph \<Rightarrow> bool" where
  "wf_graph G \<longleftrightarrow>
     distinct (nodes G) \<and>
     list_all (\<lambda>u. distinct (map fst (adj G u)) \<and>
                   list_all (\<lambda>v. v \<in> set (nodes G)) (map fst (adj G u))) (nodes G)"

section \<open>Weight functions (grafo\_pesado.py)\<close>

text \<open>\<open>callejero.MAX_SPEEDS\<close>: road class to speed in km/h, both strings.\<close>

definition MAX_SPEEDS :: "(string \<times> string) list" where
  "MAX_SPEEDS =
     [(''living_street'', ''20''), (''residential'', ''30''), (''primary_link'', ''40''),
      (''unclassified'', ''40''), (''secondary_link'', ''40''), (''trunk_link'', ''40''),
      (''secondary'', ''50''), (''tertiary'', ''50''), (''primary'', ''50''),
      (''trunk'', ''50''), (''tertiary_link'', ''50''), (''busway'', ''50''),
      (''motorway_link'', ''70''), (''motorway'', ''100'')]"

text \<open>\<open>str.strip()\<close> on ASCII text: whitespace is removed at both ends.\<close>

definition isspace :: "char \<Rightarrow> bool" where
  "isspace c \<longleftrightarrow> (of_char c :: nat) \<in> {9, 10, 11, 12, 13, 28, 29, 30, 31, 32}"

definition strip :: "string \<Rightarrow> string" where
  "strip s = rev (dropWhile isspace (rev (dropWhile isspace s)))"

text \<open>\<open>mas_corto\<close>: \<open>float(G[u][v]["length"])\<close>; a missing key raises \<open>KeyError\<close>.\<close>

definition mas_corto :: "'n graph \<Rightarrow> 'n \<Rightarrow> 'n \<Rightarrow> error + real" where
  "mas_corto G u v =
     (case edge_attrs G u v of
        Inl e \<Rightarrow> Inl e
      | Inr datos \<Rightarrow> (case e_length datos of None \<Rightarrow> Inl KeyError | Some l \<Rightarrow> Inr l))"

text \<open>
  The first half of \<open>_velocidad_kmh\<close>: the speed read from \<open>maxspeed\<close>, \<open>None\<close> when the
  attribute is absent, blank or not a number.  \<open>flt\<close> is Python's \<open>float\<close> on a string
  (\<open>None\<close> for \<open>ValueError\<close>); it is a parameter of the model.  For a float attribute,
  \<open>str\<close> gives a non-blank text that \<open>float\<close> reads back to the same number.
\<close>

definition maxspeed_usable :: "(string \<Rightarrow> real option) \<Rightarrow> attr option \<Rightarrow> real option" where
  "maxspeed_usable flt maxspeed =
     (case maxspeed of
        None \<Rightarrow> None
      | Some (Num r) \<Rightarrow> Some r
      | Some (Str s) \<Rightarrow> (let texto = strip s in if texto = [] then None else flt texto))"

text \<open>
  \<open>_velocidad_kmh\<close>.  Without a usable \<open>maxspeed\<close> the road class is looked up in
  \<open>MAX_SPEEDS\<close>; \<open>float(None)\<close> raises \<open>TypeError\<close> when the table has no entry.
\<close>

definition velocidad_kmh ::
  "(string \<Rightarrow> real option) \<Rightarrow> 'n graph \<Rightarrow> 'n \<Rightarrow> 'n \<Rightarrow> error + real" where
  "velocidad_kmh flt G u v =
     (case edge_attrs G u v of
        Inl e \<Rightarrow> Inl e
      | Inr datos \<Rightarrow>
          (case maxspeed_usable flt (e_maxspeed datos) of
             Some r \<Rightarrow> Inr r
           | None \<Rightarrow>
               (case (case e_highway datos of None \<Rightarrow> None | Some h \<Rightarrow> map_of MAX_SPEEDS h) of
                  None \<Rightarrow> Inl TypeError
                | Some valor \<Rightarrow> (case flt valor of None \<Rightarrow> Inl ValueError | Some r \<Rightarrow> Inr r))))"

text \<open>
  \<open>mas_rapido\<close>: the length is read first (\<open>float(None)\<close> raises \<open>TypeError\<close>), then the
  speed; the time is length over speed in m/s.  Floats are modelled as reals.
\<close>

definition mas_rapido ::
  "(string \<Rightarrow> real option) \<Rightarrow> 'n graph \<Rightarrow> 'n \<Rightarrow> 'n \<Rightarrow> error + real" where
  "mas_rapido flt G u v =
     (case edge_attrs G u v of
        Inl e \<Rightarrow> Inl e
      | Inr datos \<Rightarrow>
          (case e_length datos of
             None \<Rightarrow> Inl TypeError
           | Some longitud_m \<Rightarrow>
               (case velocidad_kmh flt G u v of
                  Inl e \<Rightarrow> Inl e
                | Inr vel_kmh \<Rightarrow>
                    (let vel_m_s = vel_kmh / 3.6
                     in if vel_m_s = 0 then Inl ZeroDivisionError
                        else Inr (longitud_m / vel_m_s)))))"

definition mas_rapido_semaforos ::
  "(string \<Rightarrow> real option) \<Rightarrow> 'n graph \<Rightarrow> 'n \<Rightarrow> 'n \<Rightarrow> error + real" where
  "mas_rapido_semaforos flt G u v =
     (case mas_rapido flt G u v of
        Inl e \<Rightarrow> Inl e
      | Inr tiempo_base \<Rightarrow>
          (let p = 0.8; tiempo_parada = 30.0; espera_esperada = p * tiempo_parada
           in Inr (tiempo_base + espera_esperada)))"

text \<open>
  A reader of unsigned decimal integers, standing for Python's \<open>float\<close> where a concrete
  one is needed: \<open>float("30")\<close> is \<open>30.0\<close>, and a text with any other character is
  rejected here.
\<close>

definition digit_val :: "char \<Rightarrow> nat option" where
  "digit_val c =
     (let n = (of_char c :: nat) in if 48 \<le> n \<and> n \<le> 57 then Some (n - 48) else None)"

fun read_digits :: "nat \<Rightarrow> string \<Rightarrow> nat option" where
  "read_digits acc [] = Some acc"
| "read_digits acc (c # cs) =
     (case digit_val c of None \<Rightarrow> None | Some d \<Rightarrow> read_digits (10 * acc + d) cs)"

definition float_digits :: "string \<Rightarrow> real option" where
  "float_digits s = (if s = [] then None else map_option real (read_digits 0 s))"

text \<open>A two-edge street graph for running the weight functions.\<close>

definition calle_residencial :: edge_data where
  "calle_residencial =
     \<lparr>e_name = None, e_length = Some 100, e_highway = Some ''residential'', e_maxspeed = None\<rparr>"

definition senda :: edge_data where
  "senda =
     \<lparr>e_name = None, e_length = Some 50, e_highway = Some ''footway'',
      e_maxspeed = Some (Str '' '')\<rparr>"

definition G_vias :: "nat graph" where
  "G_vias =
     \<lparr>nodes = [1, 2, 3], node_x = Map.empty, node_y = Map.empty,
      adj = (\<lambda>u. if u = 1 then [(2, calle_residencial)]
                 else if u = 2 then [(3, senda)] else []),
      directed = True\<rparr>"

text \<open>
  Three more edges: one whose \<open>maxspeed\<close> is a text that is not a number, one without
  length, and one whose \<open>maxspeed\<close> is a number between blanks on a road class that
  the table does not have.
\<close>

definition calle_senal :: edge_data where
  "calle_senal =
     \<lparr>e_name = None, e_length = Some 100, e_highway = Some ''residential'',
      e_maxspeed = Some (Str ''signals'')\<rparr>"

definition calle_sin_largo :: edge_data where
  "calle_sin_largo =
     \<lparr>e_name = None, e_length = None, e_highway = Some ''residential'', e_maxspeed = None\<rparr>"

definition senda_rapida :: edge_data where
  "senda_rapida =
     \<lparr>e_name = None, e_length = Some 100, e_highway = Some ''footway'',
      e_maxspeed = Some (Str '' 50 '')\<rparr>"

definition G_senal :: "nat graph" where
  "G_senal =
     \<lparr>nodes = [1, 2, 3, 4], node_x = Map.empty, node_y = Map.empty,
      adj = (\<lambda>u. if u = 1 then [(2, calle_senal)]
                 else if u = 2 then [(3, calle_sin_largo)]
                 else if u = 3 then [(4, senda_rapida)] else []),
      directed = True\<rparr>"

section \<open>Shortest paths (grafo\_pesado.py)\<close>

text \<open>
  \<open>INFTY\<close> is \<open>sys.float_info.max\<close>, the largest finite double.  Distances and
  weights are modelled as reals.
\<close>

definition INFTY :: real where
  "INFTY = 2 ^ 1024 - 2 ^ 971"

text \<open>
  A weight function receives the graph and the two ends of an edge, and may raise.
  An entry of a priority queue is a triple (cost, sequence number, node).
\<close>

type_synonym 'n peso = "'n graph \<Rightarrow> 'n \<Rightarrow> 'n \<Rightarrow> error + real"

type_synonym 'n entry = "real \<times> nat \<times> 'n"

text \<open>
  \<open>heapq\<close> keeps the queue as a list and \<open>heappop\<close> takes out its least triple.  Python
  compares the triples by cost and then by sequence number; the sequence numbers of a
  queue differ, so nodes are never compared.  The queue is modelled as the list of its
  entries: \<open>heappush\<close> adds one and \<open>heappop\<close> removes \<open>heap_min\<close>.
\<close>

definition entry_le :: "'n entry \<Rightarrow> 'n entry \<Rightarrow> bool" where
  "entry_le a b \<longleftrightarrow> fst a < fst b \<or> (fst a = fst b \<and> fst (snd a) \<le> fst (snd b))"

fun heap_min :: "'n entry \<Rightarrow> 'n entry list \<Rightarrow> 'n entry" where
  "heap_min m [] = m"
| "heap_min m (x # xs) = heap_min (if entry_le m x then m else x) xs"

text \<open>
  The local variables of \<open>dijkstra\<close>.  A dictionary is an association list in insertion
  order: \<open>d[k] = v\<close> is \<open>AList.update\<close>, \<open>d[k]\<close> is \<open>map_of\<close> (\<open>KeyError\<close> on \<open>None\<close>) and
  \<open>del d[k]\<close> is \<open>AList.delete\<close>.  A value of \<open>padre\<close> is a node or Python's \<open>None\<close>.
\<close>

record 'n dijkstra_state =
  d_padre :: "('n \<times> 'n option) list"
  d_dist :: "('n \<times> real) list"
  d_visitado :: "('n \<times> bool) list"
  d_Q :: "'n entry list"
  d_contador :: nat

text \<open>The loop over the neighbours \<open>x\<close> of the node \<open>v\<close> just marked as visited.\<close>

fun relajar ::
  "'n graph \<Rightarrow> 'n peso \<Rightarrow> 'n \<Rightarrow> 'n dijkstra_state \<Rightarrow> 'n list \<Rightarrow> error + 'n dijkstra_state" where
  "relajar G peso v st [] = Inr st"
| "relajar G peso v st (x # xs) =
     (case peso G v x of
        Inl e \<Rightarrow> Inl e
      | Inr w_vx \<Rightarrow>
          (case map_of (d_dist st) x of
             None \<Rightarrow> Inl KeyError
           | Some dist_x \<Rightarrow>
               (case map_of (d_dist st) v of
                  None \<Rightarrow> Inl KeyError
                | Some dist_v \<Rightarrow>
                    if dist_x > dist_v + w_vx
                    then relajar G peso v
                           (st\<lparr>d_dist := AList.update x (dist_v + w_vx) (d_dist st),
                               d_padre := AList.update x (Some v) (d_padre st),
                               d_Q := d_Q st @ [(dist_v + w_vx, d_contador st, x)],
                               d_contador := Suc (d_contador st)\<rparr>) xs
                    else relajar G peso v st xs)))"

lemma relajar_visitado:
  "relajar G peso v st xs = Inr st' \<Longrightarrow> d_visitado st' = d_visitado st"
  by (induction xs arbitrary: st) (auto split: sum.splits option.splits if_splits)

definition pendientes :: "('n \<times> bool) list \<Rightarrow> nat" where
  "pendientes vis = length (filter (\<lambda>p. \<not> snd p) vis)"

lemma pendientes_update:
  "map_of vis v = Some False \<Longrightarrow> pendientes (AList.update v True vis) < pendientes vis"
  by (induction vis) (auto simp: pendientes_def)

lemma heap_min_in: "heap_min m xs \<in> set (m # xs)"
  by (induction xs arbitrary: m) auto

text \<open>
  The loop \<open>while Q\<close>.  It ends: a pass either marks a node that was not visited, or
  only takes an entry out of the queue.
\<close>

function dijkstra_loop ::
  "'n graph \<Rightarrow> 'n peso \<Rightarrow> 'n dijkstra_state \<Rightarrow> error + 'n dijkstra_state" where
  "dijkstra_loop G peso st =
     (case d_Q st of
        [] \<Rightarrow> Inr st
      | e # es \<Rightarrow>
          (let m = heap_min e es; v = snd (snd m); Q' = remove1 m (e # es) in
           case map_of (d_visitado st) v of
             None \<Rightarrow> Inl KeyError
           | Some vis \<Rightarrow>
               if vis then dijkstra_loop G peso (st\<lparr>d_Q := Q'\<rparr>)
               else (case neighbors G v of
                       Inl err \<Rightarrow> Inl err
                     | Inr xs \<Rightarrow>
                         (case relajar G peso v
                                 (st\<lparr>d_Q := Q',
                                     d_visitado := AList.update v True (d_visitado st)\<rparr>) xs of
                            Inl err \<Rightarrow> Inl err
                          | Inr st' \<Rightarrow> dijkstra_loop G peso st'))))"
  by pat_completeness auto

termination
proof (relation "measures [\<lambda>(G, peso, st). pendientes (d_visitado st),
                           \<lambda>(G, peso, st). length (d_Q st)]")
  show "wf (measures [\<lambda>(G :: 'n graph, peso :: 'n peso, st). pendientes (d_visitado st),
                      \<lambda>(G, peso, st). length (d_Q st)])"
    by simp
next
  fix G :: "'n graph" and peso :: "'n peso" and st :: "'n dijkstra_state"
    and e es m Q'
  assume "d_Q st = e # es" "m = heap_min e es" "Q' = remove1 m (e # es)"
  then show "((G, peso, st\<lparr>d_Q := Q'\<rparr>), G, peso, st)
      \<in> measures [\<lambda>(G, peso, st). pendientes (d_visitado st),
                  \<lambda>(G, peso, st). length (d_Q st)]"
    using heap_min_in [of e es]
    by (auto simp: length_remove1 dest: length_pos_if_in_set)
next
  fix G :: "'n graph" and peso :: "'n peso" and st st' :: "'n dijkstra_state"
    and m :: "'n entry" and v Q' vis xs
  assume "v = snd (snd m)" "map_of (d_visitado st) v = Some vis" "\<not> vis"
    "relajar G peso v
       (st\<lparr>d_Q := Q', d_visitado := AList.update v True (d_visitado st)\<rparr>) xs = Inr st'"
  then show "((G, peso, st'), G, peso, st)
      \<in> measures [\<lambda>(G, peso, st). pendientes (d_visitado st),
                  \<lambda>(G, peso, st). length (d_Q st)]"
    using relajar_visitado [of G peso v _ xs st'] pendientes_update [of "d_visitado st" v]
    by auto
qed

declare dijkstra_loop.simps [simp del]

text \<open>
  \<open>dijkstra\<close>.  The test at its entry (\<open>origen\<close> is neither of a hashable builtin type nor
  has \<open>__hash__\<close>) is false for every Python object, and a node is hashable; it has no
  branch here.  The three dictionaries get an entry for every node of the graph, the
  loop runs, and the entry of \<open>origen\<close> is deleted from \<open>padre\<close>.
\<close>

definition dijkstra :: "'n graph \<Rightarrow> 'n peso \<Rightarrow> 'n \<Rightarrow> error + ('n \<times> 'n option) list" where
  "dijkstra G peso origen =
     (let st0 = \<lparr>d_padre = fold (\<lambda>v. AList.update v None) (nodes G) [],
                 d_dist = AList.update origen 0 (fold (\<lambda>v. AList.update v INFTY) (nodes G) []),
                 d_visitado = fold (\<lambda>v. AList.update v False) (nodes G) [],
                 d_Q = [(0, 0, origen)],
                 d_contador = 1\<rparr>
      in case dijkstra_loop G peso st0 of
           Inl e \<Rightarrow> Inl e
         | Inr st \<Rightarrow> Inr (AList.delete origen (d_padre st)))"

text \<open>
  The loop \<open>while actual != origen\<close> of \<open>camino_minimo\<close>, which follows the parents and
  appends them to \<open>camino\<close>.  It need not end for an arbitrary dictionary, so its result
  is an option: \<open>None\<close> when it runs forever.  When the parent of \<open>actual\<close> is Python's
  \<open>None\<close>, the next pass looks \<open>None\<close> up in \<open>padres\<close>, where it is never a key (networkx
  refuses \<open>None\<close> as a node): \<open>KeyError\<close>.
\<close>

partial_function (option) subir ::
  "('n \<times> 'n option) list \<Rightarrow> 'n \<Rightarrow> 'n \<Rightarrow> 'n list \<Rightarrow> (error + 'n list) option" where
  "subir padres origen actual camino =
     (if actual = origen then Some (Inr camino)
      else (case map_of padres actual of
              None \<Rightarrow> Some (Inl KeyError)
            | Some None \<Rightarrow> Some (Inl KeyError)
            | Some (Some p) \<Rightarrow> subir padres origen p (camino @ [p])))"

declare subir.simps [code]

text \<open>
  \<open>camino_minimo\<close>, with the function that computes the tree as a parameter \<open>arbol\<close>; the
  code calls \<open>dijkstra\<close> there.  The two tests at the entry are as in \<open>dijkstra\<close>.
\<close>

definition camino_minimo_con ::
  "('n graph \<Rightarrow> 'n peso \<Rightarrow> 'n \<Rightarrow> error + ('n \<times> 'n option) list) \<Rightarrow>
   'n graph \<Rightarrow> 'n peso \<Rightarrow> 'n \<Rightarrow> 'n \<Rightarrow> (error + 'n list) option" where
  "camino_minimo_con arbol G peso origen destino =
     (if origen = destino then Some (Inr [origen])
      else (case arbol G peso origen of
              Inl e \<Rightarrow> Some (Inl e)
            | Inr padres \<Rightarrow>
                if destino \<notin> set (map fst padres) then Some (Inr [])
                else map_option (map_sum id rev) (subir padres origen destino [destino])))"

definition camino_minimo ::
  "'n graph \<Rightarrow> 'n peso \<Rightarrow> 'n \<Rightarrow> 'n \<Rightarrow> (error + 'n list) option" where
  "camino_minimo = camino_minimo_con dijkstra"

text \<open>Two nodes and no edge.\<close>

definition G_aislado :: "nat graph" where
  "G_aislado =
     \<lparr>nodes = [1, 2], node_x = Map.empty, node_y = Map.empty, adj = (\<lambda>u. []),
      directed = True\<rparr>"

section \<open>Route instructions (gps.py)\<close>

text \<open>
  The label of an edge without a usable name, ``via sin nombre'' with an accented i
  (two bytes in UTF-8).
\<close>

definition via_sin_nombre :: string where
  "via_sin_nombre = ''v'' @ [CHR 0xC3, CHR 0xAD] @ ''a sin nombre''"

text \<open>\<open>_nombre_calle\<close>: the name of the edge, or the label when it is absent or blank.\<close>

definition nombre_calle :: "'n graph \<Rightarrow> 'n \<Rightarrow> 'n \<Rightarrow> error + string" where
  "nombre_calle G u v =
     (case edge_attrs G u v of
        Inl e \<Rightarrow> Inl e
      | Inr datos \<Rightarrow>
          (case e_name datos of
             None \<Rightarrow> Inr via_sin_nombre
           | Some nombre \<Rightarrow> if strip nombre = [] then Inr via_sin_nombre else Inr nombre))"

text \<open>
  The second half of \<open>_calcular_giro\<close>, from the arrival vector \<open>(v1x, v1y)\<close> and the
  departure vector \<open>(v2x, v2y)\<close> on.  Coordinates are modelled as reals.
\<close>

definition giro_vectores :: "real \<Rightarrow> real \<Rightarrow> real \<Rightarrow> real \<Rightarrow> string option" where
  "giro_vectores v1x v1y v2x v2y =
     (if v1x = 0 \<and> v1y = 0 then None
      else if v2x = 0 \<and> v2y = 0 then None
      else (let cross = v1x * v2y - v1y * v2x;
                dot = v1x * v2x + v1y * v2y;
                eps = 0.000001
            in if \<bar>cross\<bar> < eps \<and> dot > 0 then None
               else if cross > 0 then Some ''gira a la izquierda''
               else Some ''gira a la derecha''))"

text \<open>
  \<open>_calcular_giro\<close>: no turn at the first and at the last node of the path; otherwise
  the coordinates of the node before, of the node of the crossing and of the node after
  are read (\<open>KeyError\<close> for a node without them) and the vectors are classified.
\<close>

definition calcular_giro :: "'n list \<Rightarrow> 'n graph \<Rightarrow> int \<Rightarrow> error + string option" where
  "calcular_giro camino G idx_inicio_segmento =
     (if idx_inicio_segmento \<le> 0 \<or> idx_inicio_segmento + 1 \<ge> int (length camino)
      then Inr None
      else
        (let n0 = camino ! nat (idx_inicio_segmento - 1);
             n1 = camino ! nat idx_inicio_segmento;
             n2 = camino ! nat (idx_inicio_segmento + 1)
         in case node_coord G node_x n0 of Inl e \<Rightarrow> Inl e | Inr x0 \<Rightarrow>
            case node_coord G node_y n0 of Inl e \<Rightarrow> Inl e | Inr y0 \<Rightarrow>
            case node_coord G node_x n1 of Inl e \<Rightarrow> Inl e | Inr x1 \<Rightarrow>
            case node_coord G node_y n1 of Inl e \<Rightarrow> Inl e | Inr y1 \<Rightarrow>
            case node_coord G node_x n2 of Inl e \<Rightarrow> Inl e | Inr x2 \<Rightarrow>
            case node_coord G node_y n2 of Inl e \<Rightarrow> Inl e | Inr y2 \<Rightarrow>
              Inr (giro_vectores (x1 - x0) (y1 - y0) (x2 - x1) (y2 - y1))))"

text \<open>
  The corner of the spec's scenario: A(0,0), B(1,0), C(1,1) as the nodes 1, 2, 3, with
  Main St from A to B and Side St from B to C.  The second edge has no length.
\<close>

definition main_st :: edge_data where
  "main_st =
     \<lparr>e_name = Some ''Main St'', e_length = Some 100, e_highway = None,
      e_maxspeed = Some (Num 50)\<rparr>"

definition side_st :: edge_data where
  "side_st =
     \<lparr>e_name = Some ''Side St'', e_length = None, e_highway = None,
      e_maxspeed = Some (Num 30)\<rparr>"

definition G_esquina :: "nat graph" where
  "G_esquina =
     \<lparr>nodes = [1, 2, 3],
      node_x = [1 \<mapsto> 0, 2 \<mapsto> 1, 3 \<mapsto> 1],
      node_y = [1 \<mapsto> 0, 2 \<mapsto> 0, 3 \<mapsto> 1],
      adj = (\<lambda>u. if u = 1 then [(2, main_st)] else if u = 2 then [(3, side_st)] else []),
      directed = True\<rparr>"

text \<open>
  \<open>_frase_segmento\<close>.  \<open>fmt2\<close> is Python's formatting of a float with two decimals
  (\<open>f"{x:.2f}"\<close>), a parameter of the model.  A turn is \<open>None\<close> or a text; \<open>if giro\<close> is
  false for \<open>None\<close> and for the empty text.
\<close>

definition frase_segmento ::
  "(real \<Rightarrow> string) \<Rightarrow> string \<Rightarrow> real \<Rightarrow> bool \<Rightarrow> string option \<Rightarrow> string" where
  "frase_segmento fmt2 nombre dist_m es_primero giro =
     (let dist_km = dist_m / 1000;
          inicio = (if es_primero then ''Sal desde el origen y ''
                    else (case giro of
                            None \<Rightarrow> ''Luego ''
                          | Some g \<Rightarrow> if g = [] then ''Luego '' else ''Luego '' @ g @ '' y ''))
      in if nombre = via_sin_nombre
         then inicio @ ''contin'' @ [CHR 0xC3, CHR 0xBA] @ ''a durante '' @ fmt2 dist_km @
              '' km por una v'' @ [CHR 0xC3, CHR 0xAD] @ ''a sin nombre.''
         else inicio @ ''sigue por '' @ nombre @ '' durante '' @ fmt2 dist_km @ '' km.'')"

text \<open>A segment of the route: a dictionary with the keys nombre, dist, inicio and fin.\<close>

record segmento =
  s_nombre :: string
  s_dist :: real
  s_inicio :: nat
  s_fin :: nat

text \<open>The local variables of the first loop of \<open>construir_instrucciones\<close>.\<close>

record tramo_state =
  segmentos :: "segmento list"
  nombre_actual :: string
  dist_actual :: real
  inicio_idx :: nat

text \<open>
  \<open>float(datos.get("length", 0.0))\<close>: the length of the edge, 0.0 when the key is absent.
\<close>

definition longitud_o_cero :: "edge_data \<Rightarrow> real" where
  "longitud_o_cero datos = (case e_length datos of None \<Rightarrow> 0 | Some l \<Rightarrow> l)"

text \<open>The loop \<open>for i in range(1, len(camino) - 1)\<close>, over the list of its indices.\<close>

fun segmentar ::
  "'n graph \<Rightarrow> 'n list \<Rightarrow> nat list \<Rightarrow> tramo_state \<Rightarrow> error + tramo_state" where
  "segmentar G camino [] st = Inr st"
| "segmentar G camino (i # resto) st =
     (let u = camino ! i; v = camino ! (i + 1) in
      case edge_attrs G u v of
        Inl e \<Rightarrow> Inl e
      | Inr datos \<Rightarrow>
          (case nombre_calle G u v of
             Inl e \<Rightarrow> Inl e
           | Inr nombre \<Rightarrow>
               (let longitud = longitud_o_cero datos in
                if nombre = nombre_actual st
                then segmentar G camino resto (st\<lparr>dist_actual := dist_actual st + longitud\<rparr>)
                else segmentar G camino resto
                       (st\<lparr>segmentos := segmentos st @
                                [\<lparr>s_nombre = nombre_actual st, s_dist = dist_actual st,
                                  s_inicio = inicio_idx st, s_fin = i\<rparr>],
                           nombre_actual := nombre,
                           dist_actual := longitud,
                           inicio_idx := i\<rparr>))))"

text \<open>
  The segments of a path of at least two nodes: the first edge opens a segment, the loop
  runs, and the open segment is closed at the last node.
\<close>

definition segmentos_de :: "'n list \<Rightarrow> 'n graph \<Rightarrow> error + segmento list" where
  "segmentos_de camino G =
     (let u0 = camino ! 0; v0 = camino ! 1 in
      case nombre_calle G u0 v0 of
        Inl e \<Rightarrow> Inl e
      | Inr nombre0 \<Rightarrow>
          (case edge_attrs G u0 v0 of
             Inl e \<Rightarrow> Inl e
           | Inr datos0 \<Rightarrow>
               (case segmentar G camino [1..<length camino - 1]
                       \<lparr>segmentos = [], nombre_actual = nombre0,
                        dist_actual = longitud_o_cero datos0, inicio_idx = 0\<rparr> of
                  Inl e \<Rightarrow> Inl e
                | Inr st \<Rightarrow>
                    Inr (segmentos st @
                         [\<lparr>s_nombre = nombre_actual st, s_dist = dist_actual st,
                           s_inicio = inicio_idx st, s_fin = length camino - 1\<rparr>]))))"

text \<open>
  The loop \<open>for j, seg in enumerate(segmentos)\<close>, which builds the phrases and adds up
  the total distance.
\<close>

fun frases ::
  "(real \<Rightarrow> string) \<Rightarrow> 'n list \<Rightarrow> 'n graph \<Rightarrow> nat \<Rightarrow> segmento list \<Rightarrow>
   string list \<times> real \<Rightarrow> error + string list \<times> real" where
  "frases fmt2 camino G j [] (instrucciones, total_dist) = Inr (instrucciones, total_dist)"
| "frases fmt2 camino G j (seg # resto) (instrucciones, total_dist) =
     (case (if j = 0 then Inr None else calcular_giro camino G (int (s_inicio seg))) of
        Inl e \<Rightarrow> Inl e
      | Inr giro \<Rightarrow>
          frases fmt2 camino G (Suc j) resto
            (instrucciones @ [frase_segmento fmt2 (s_nombre seg) (s_dist seg) (j = 0) giro],
             total_dist + s_dist seg))"

definition construir_instrucciones ::
  "(real \<Rightarrow> string) \<Rightarrow> 'n list \<Rightarrow> 'n graph \<Rightarrow> error + string list" where
  "construir_instrucciones fmt2 camino G =
     (if camino = [] \<or> length camino = 1
      then Inr [''Origen y destino coinciden. Ya est'' @ [CHR 0xC3, CHR 0xA1] @
                ''s en tu destino.'']
      else (case segmentos_de camino G of
              Inl e \<Rightarrow> Inl e
            | Inr segs \<Rightarrow>
                (case frases fmt2 camino G 0 segs ([], 0) of
                   Inl e \<Rightarrow> Inl e
                 | Inr (instrucciones, total_dist) \<Rightarrow>
                     Inr (instrucciones @
                          [''Distancia total aproximada: '' @ fmt2 (total_dist / 1000) @
                           '' km.'']))))"

text \<open>
  A formatting with two decimals for non-negative numbers, standing for Python's where a
  concrete one is needed; it rounds half up.
\<close>

definition digito :: "nat \<Rightarrow> char" where
  "digito d = ''0123456789'' ! (d mod 10)"

fun digitos :: "nat \<Rightarrow> nat \<Rightarrow> string" where
  "digitos 0 n = []"
| "digitos (Suc k) n =
     (if n < 10 then [digito n] else digitos k (n div 10) @ [digito (n mod 10)])"

definition dos_decimales :: "real \<Rightarrow> string" where
  "dos_decimales x =
     (let c = nat \<lfloor>x * 100 + 1 / 2\<rfloor>
      in digitos (Suc c) (c div 100) @ ''.'' @ [digito (c mod 100 div 10), digito (c mod 10)])"

text \<open>
  What the edge from the node at index \<open>i\<close> of a path to the next node adds to a
  distance: its length, and 0 when the attribute is absent.
\<close>

definition largo :: "'n graph \<Rightarrow> 'n list \<Rightarrow> nat \<Rightarrow> real" where
  "largo G camino i =
     (case edge_attrs G (camino ! i) (camino ! Suc i) of
        Inl e \<Rightarrow> 0
      | Inr datos \<Rightarrow> (case e_length datos of None \<Rightarrow> 0 | Some l \<Rightarrow> l))"

text \<open>
  Consecutive segments from index \<open>a\<close> to index \<open>b\<close>, each with the sum of \<open>f\<close> over its
  indices as its distance.
\<close>

fun cadena :: "(nat \<Rightarrow> real) \<Rightarrow> nat \<Rightarrow> segmento list \<Rightarrow> nat \<Rightarrow> bool" where
  "cadena f a [] b \<longleftrightarrow> a = b"
| "cadena f a (s # ss) b \<longleftrightarrow>
     s_inicio s = a \<and> a \<le> s_fin s \<and> s_dist s = sum f {a..<s_fin s} \<and> cadena f (s_fin s) ss b"

section \<open>Spanning trees (grafo\_pesado.py)\<close>

text \<open>
  \<open>G.edges\<close>.  A \<open>DiGraph\<close> gives every edge \<open>(u, v)\<close>, node by node in the order of the
  adjacency.  A \<open>Graph\<close> gives every edge once: at the node \<open>n\<close> it leaves out the
  neighbours that were visited as nodes before.
\<close>

fun aristas_grafo :: "'n graph \<Rightarrow> 'n list \<Rightarrow> 'n list \<Rightarrow> ('n \<times> 'n) list" where
  "aristas_grafo G [] seen = []"
| "aristas_grafo G (n # ns) seen =
     map (\<lambda>nbr. (n, nbr)) (filter (\<lambda>nbr. nbr \<notin> set seen) (map fst (adj G n))) @
     aristas_grafo G ns (n # seen)"

definition edges :: "'n graph \<Rightarrow> ('n \<times> 'n) list" where
  "edges G =
     (if directed G then concat (map (\<lambda>u. map (\<lambda>v. (u, v)) (map fst (adj G u))) (nodes G))
      else aristas_grafo G (nodes G) [])"

text \<open>The first loop of \<open>kruskal\<close>: the list of the edges with their weights.\<close>

fun pesar :: "'n graph \<Rightarrow> 'n peso \<Rightarrow> ('n \<times> 'n) list \<Rightarrow> error + (real \<times> 'n \<times> 'n) list" where
  "pesar G peso [] = Inr []"
| "pesar G peso ((u, v) # resto) =
     (case peso G u v of
        Inl e \<Rightarrow> Inl e
      | Inr c \<Rightarrow> (case pesar G peso resto of Inl e \<Rightarrow> Inl e | Inr lista \<Rightarrow> Inr ((c, u, v) # lista)))"

text \<open>
  The loop \<open>while lista\<close> of \<open>kruskal\<close>.  \<open>C\<close> maps a node to the set of the nodes of its
  component; the inner loop over \<open>nueva_comp\<close> gives the new set to all its members.
\<close>

fun unir ::
  "('n \<rightharpoonup> 'n set) \<Rightarrow> (real \<times> 'n \<times> 'n) list \<Rightarrow> ('n \<times> 'n) list \<Rightarrow> error + ('n \<times> 'n) list" where
  "unir C [] aristas_aam = Inr aristas_aam"
| "unir C ((c, u, v) # lista) aristas_aam =
     (case C u of
        None \<Rightarrow> Inl KeyError
      | Some comp_u \<Rightarrow>
          (case C v of
             None \<Rightarrow> Inl KeyError
           | Some comp_v \<Rightarrow>
               if comp_u \<noteq> comp_v
               then (let nueva_comp = comp_u \<union> comp_v
                     in unir (\<lambda>w. if w \<in> nueva_comp then Some nueva_comp else C w) lista
                          (aristas_aam @ [(u, v)]))
               else unir C lista aristas_aam))"

text \<open>
  \<open>kruskal\<close>.  \<open>list.sort\<close> with a key is stable, as \<open>sort_key\<close> is; weights are modelled
  as reals.
\<close>

definition kruskal :: "'n graph \<Rightarrow> 'n peso \<Rightarrow> error + ('n \<times> 'n) list" where
  "kruskal G peso =
     (case pesar G peso (edges G) of
        Inl e \<Rightarrow> Inl e
      | Inr lista \<Rightarrow>
          unir (\<lambda>v. if v \<in> set (nodes G) then Some {v} else None) (sort_key fst lista) [])"

text \<open>
  The local variables of \<open>prim\<close>.  \<open>en_Q\<close> is a Python set, kept as a list without
  repetitions; only membership in it is asked.
\<close>

record 'n prim_state =
  p_padre :: "('n \<times> 'n option) list"
  p_coste :: "('n \<times> real) list"
  p_Q :: "'n entry list"
  p_en_Q :: "'n list"
  p_contador :: nat

text \<open>The first loop of \<open>prim\<close>: every node gets no parent, the cost \<open>INFTY\<close> and an entry.\<close>

fun iniciar :: "'n list \<Rightarrow> 'n prim_state \<Rightarrow> 'n prim_state" where
  "iniciar [] st = st"
| "iniciar (v # vs) st =
     iniciar vs
       (st\<lparr>p_padre := AList.update v None (p_padre st),
           p_coste := AList.update v INFTY (p_coste st),
           p_Q := p_Q st @ [(INFTY, p_contador st, v)],
           p_contador := Suc (p_contador st)\<rparr>)"






text \<open>
  The pairs of adjacent nodes of a graph.  The adjacency of a \<open>Graph\<close> is symmetric.
\<close>

definition adyacentes :: "'n graph \<Rightarrow> ('n \<times> 'n) set" where
  "adyacentes G = {(u, v). u \<in> set (nodes G) \<and> v \<in> fst ` set (adj G u)}"

definition simetrico :: "'n graph \<Rightarrow> bool" where
  "simetrico G \<longleftrightarrow>
     list_all (\<lambda>u. list_all (\<lambda>v. u \<in> fst ` set (adj G v)) (map fst (adj G u))) (nodes G)"

text \<open>
  Connection by a set of edges taken in both directions, the component of a node within
  a set of nodes, and the number of components.
\<close>

definition conexion :: "('n \<times> 'n) set \<Rightarrow> ('n \<times> 'n) set" where
  "conexion E = (E \<union> E\<inverse>)\<^sup>*"

definition componente :: "'n set \<Rightarrow> ('n \<times> 'n) set \<Rightarrow> 'n \<Rightarrow> 'n set" where
  "componente V E u = {v \<in> V. (u, v) \<in> conexion E}"

definition n_componentes :: "'n set \<Rightarrow> ('n \<times> 'n) set \<Rightarrow> nat" where
  "n_componentes V E = card (componente V E ` V)"

text \<open>
  The greedy choice in the words of the spec: the edges are taken in the given order,
  and an edge is added when its ends are not yet connected by the edges added before.
\<close>

fun elegir :: "('n \<times> 'n) list \<Rightarrow> ('n \<times> 'n) list \<Rightarrow> ('n \<times> 'n) list" where
  "elegir elegidas [] = elegidas"
| "elegir elegidas (e # resto) =
     (if e \<in> conexion (set elegidas) then elegir elegidas resto
      else elegir (elegidas @ [e]) resto)"

text \<open>A list of edges none of which joins two nodes that the edges before it connect.\<close>

definition bosque :: "('n \<times> 'n) list \<Rightarrow> bool" where
  "bosque es \<longleftrightarrow> list_all (\<lambda>i. es ! i \<notin> conexion (set (take i es))) [0..<length es]"

text \<open>A square with a diagonal and a separate edge, with the lengths as weights.\<close>

definition tramo :: "real \<Rightarrow> edge_data" where
  "tramo l = \<lparr>e_name = None, e_length = Some l, e_highway = None, e_maxspeed = None\<rparr>"

definition G_plaza :: "nat graph" where
  "G_plaza =
     \<lparr>nodes = [1, 2, 3, 4, 5, 6], node_x = Map.empty, node_y = Map.empty,
      adj = (\<lambda>u. if u = 1 then [(2, tramo 4), (4, tramo 1), (3, tramo 2)]
                 else if u = 2 then [(1, tramo 4), (3, tramo 1)]
                 else if u = 3 then [(2, tramo 1), (4, tramo 2), (1, tramo 2)]
                 else if u = 4 then [(3, tramo 2), (1, tramo 1)]
                 else if u = 5 then [(6, tramo 7)]
                 else if u = 6 then [(5, tramo 7)]
                 else []),
      directed = False\<rparr>"











section \<open>Speed resolution\<close>

lemma maxspeed_usable_Some_iff:
  "maxspeed_usable flt m = Some r \<longleftrightarrow>
     m = Some (Num r) \<or> (\<exists>s. m = Some (Str s) \<and> strip s \<noteq> [] \<and> flt (strip s) = Some r)"
  by (auto simp: maxspeed_usable_def Let_def split: option.splits attr.splits)

lemma maxspeed_usable_None_iff:
  "maxspeed_usable flt m = None \<longleftrightarrow>
     m = None \<or> (\<exists>s. m = Some (Str s) \<and> (strip s = [] \<or> flt (strip s) = None))"
proof (cases m)
  case None
  then show ?thesis by (simp add: maxspeed_usable_def)
next
  case (Some a)
  then show ?thesis by (cases a) (simp_all add: maxspeed_usable_def Let_def)
qed

lemma velocidad_kmh_propia:
  assumes "edge_attrs G u v = Inr datos" "maxspeed_usable flt (e_maxspeed datos) = Some r"
  shows "velocidad_kmh flt G u v = Inr r"
  using assms by (simp add: velocidad_kmh_def)

lemma velocidad_kmh_tabla:
  assumes "edge_attrs G u v = Inr datos" "maxspeed_usable flt (e_maxspeed datos) = None"
  shows "velocidad_kmh flt G u v =
         (case (case e_highway datos of None \<Rightarrow> None | Some h \<Rightarrow> map_of MAX_SPEEDS h) of
            None \<Rightarrow> Inl TypeError
          | Some valor \<Rightarrow> (case flt valor of None \<Rightarrow> Inl ValueError | Some r \<Rightarrow> Inr r))"
  using assms by (simp add: velocidad_kmh_def)

lemma MAX_SPEEDS_residential: "map_of MAX_SPEEDS ''residential'' = Some ''30''"
  by (simp add: MAX_SPEEDS_def)

text \<open>
  C3, as the code has it.  On an edge of the graph, the speed is the edge's own
  \<open>maxspeed\<close> when that is a float, or a text that is not blank and that \<open>float\<close>
  accepts.  When the attribute is absent, blank or not accepted by \<open>float\<close>, the speed
  is the entry of the road class in \<open>MAX_SPEEDS\<close>; in particular such an edge of
  class \<open>residential\<close> resolves to 30 km/h.  When moreover the road class is absent or
  has no entry, the resolution fails with the \<open>TypeError\<close> of \<open>float(None)\<close>.
  \<open>mas_rapido\<close> divides the length by the resolved speed in m/s, passes the failure on,
  and fails with the same \<open>TypeError\<close> on an edge without length.
\<close>

theorem velocidad_kmh_resolucion:
  assumes "edge_attrs G u v = Inr datos"
  shows "(\<forall>r. e_maxspeed datos = Some (Num r) \<longrightarrow> velocidad_kmh flt G u v = Inr r) \<and>
         (\<forall>s r. e_maxspeed datos = Some (Str s) \<and> strip s \<noteq> [] \<and> flt (strip s) = Some r
                 \<longrightarrow> velocidad_kmh flt G u v = Inr r) \<and>
         (e_maxspeed datos = None \<or>
          (\<exists>s. e_maxspeed datos = Some (Str s) \<and> (strip s = [] \<or> flt (strip s) = None))
            \<longrightarrow>
            (\<forall>h valor r. e_highway datos = Some h \<and> map_of MAX_SPEEDS h = Some valor \<and>
                    flt valor = Some r
                    \<longrightarrow> velocidad_kmh flt G u v = Inr r) \<and>
            (e_highway datos = Some ''residential'' \<and> flt ''30'' = Some 30
                    \<longrightarrow> velocidad_kmh flt G u v = Inr 30) \<and>
            (e_highway datos = None \<or>
             (\<exists>h. e_highway datos = Some h \<and> map_of MAX_SPEEDS h = None)
                    \<longrightarrow> velocidad_kmh flt G u v = Inl TypeError)) \<and>
         (\<forall>l s. e_length datos = Some l \<and> velocidad_kmh flt G u v = Inr s \<and> s \<noteq> 0
                 \<longrightarrow> mas_rapido flt G u v = Inr (l / (s / 3.6))) \<and>
         (\<forall>l e. e_length datos = Some l \<and> velocidad_kmh flt G u v = Inl e
                 \<longrightarrow> mas_rapido flt G u v = Inl e) \<and>
         (e_length datos = None \<longrightarrow> mas_rapido flt G u v = Inl TypeError)"
proof (intro conjI)
  show "\<forall>r. e_maxspeed datos = Some (Num r) \<longrightarrow> velocidad_kmh flt G u v = Inr r"
    using velocidad_kmh_propia [OF assms, of flt] by (simp add: maxspeed_usable_def)
  show "\<forall>s r. e_maxspeed datos = Some (Str s) \<and> strip s \<noteq> [] \<and> flt (strip s) = Some r
          \<longrightarrow> velocidad_kmh flt G u v = Inr r"
    using velocidad_kmh_propia [OF assms, of flt] by (simp add: maxspeed_usable_def)
  show "e_maxspeed datos = None \<or>
        (\<exists>s. e_maxspeed datos = Some (Str s) \<and> (strip s = [] \<or> flt (strip s) = None))
          \<longrightarrow>
          (\<forall>h valor r. e_highway datos = Some h \<and> map_of MAX_SPEEDS h = Some valor \<and>
                  flt valor = Some r
                  \<longrightarrow> velocidad_kmh flt G u v = Inr r) \<and>
          (e_highway datos = Some ''residential'' \<and> flt ''30'' = Some 30
                  \<longrightarrow> velocidad_kmh flt G u v = Inr 30) \<and>
          (e_highway datos = None \<or>
           (\<exists>h. e_highway datos = Some h \<and> map_of MAX_SPEEDS h = None)
                  \<longrightarrow> velocidad_kmh flt G u v = Inl TypeError)"
  proof
    assume "e_maxspeed datos = None \<or>
        (\<exists>s. e_maxspeed datos = Some (Str s) \<and> (strip s = [] \<or> flt (strip s) = None))"
    then have "maxspeed_usable flt (e_maxspeed datos) = None"
      by (simp only: maxspeed_usable_None_iff)
    note t = velocidad_kmh_tabla [OF assms this]
    have 1: "\<forall>h valor r. e_highway datos = Some h \<and> map_of MAX_SPEEDS h = Some valor \<and>
                  flt valor = Some r
                  \<longrightarrow> velocidad_kmh flt G u v = Inr r"
      unfolding t by simp
    have 2: "e_highway datos = Some ''residential'' \<and> flt ''30'' = Some 30
                  \<longrightarrow> velocidad_kmh flt G u v = Inr 30"
      unfolding t by (simp add: MAX_SPEEDS_residential)
    have 3: "e_highway datos = None \<or>
           (\<exists>h. e_highway datos = Some h \<and> map_of MAX_SPEEDS h = None)
                  \<longrightarrow> velocidad_kmh flt G u v = Inl TypeError"
      unfolding t by auto
    from 1 2 3 show "(\<forall>h valor r. e_highway datos = Some h \<and> map_of MAX_SPEEDS h = Some valor \<and>
                  flt valor = Some r
                  \<longrightarrow> velocidad_kmh flt G u v = Inr r) \<and>
          (e_highway datos = Some ''residential'' \<and> flt ''30'' = Some 30
                  \<longrightarrow> velocidad_kmh flt G u v = Inr 30) \<and>
          (e_highway datos = None \<or>
           (\<exists>h. e_highway datos = Some h \<and> map_of MAX_SPEEDS h = None)
                  \<longrightarrow> velocidad_kmh flt G u v = Inl TypeError)"
      by (intro conjI)
  qed
  show "\<forall>l s. e_length datos = Some l \<and> velocidad_kmh flt G u v = Inr s \<and> s \<noteq> 0
          \<longrightarrow> mas_rapido flt G u v = Inr (l / (s / 3.6))"
    using assms by (simp add: mas_rapido_def)
  show "\<forall>l e. e_length datos = Some l \<and> velocidad_kmh flt G u v = Inl e
          \<longrightarrow> mas_rapido flt G u v = Inl e"
    using assms by (simp add: mas_rapido_def)
  show "e_length datos = None \<longrightarrow> mas_rapido flt G u v = Inl TypeError"
    using assms by (simp add: mas_rapido_def)
qed

lemma float_digits_ejemplos:
  "float_digits ''30'' = Some 30" "float_digits ''50'' = Some 50"
  "float_digits ''signals'' = None"
  by (simp_all add: float_digits_def digit_val_def)

lemma strip_ejemplos:
  "strip '' '' = []" "strip ''signals'' = ''signals''" "strip '' 50 '' = ''50''"
  by (simp_all add: strip_def isspace_def)

lemma edge_attrs_G_senal:
  "edge_attrs G_senal 1 2 = Inr calle_senal" "edge_attrs G_senal 2 3 = Inr calle_sin_largo"
  "edge_attrs G_senal 3 4 = Inr senda_rapida"
  by (simp_all add: edge_attrs_def G_senal_def)

lemma edge_attrs_G_vias:
  "edge_attrs G_vias 1 2 = Inr calle_residencial" "edge_attrs G_vias 2 3 = Inr senda"
  by (simp_all add: edge_attrs_def G_vias_def)

theorem velocidad_kmh_resolucion_witness:
  "velocidad_kmh float_digits G_vias 1 2 = Inr 30 \<and>
   mas_rapido float_digits G_vias 1 2 = Inr 12 \<and>
   velocidad_kmh float_digits G_vias 2 3 = Inl TypeError \<and>
   mas_rapido float_digits G_vias 2 3 = Inl TypeError \<and>
   velocidad_kmh float_digits G_senal 1 2 = Inr 30 \<and>
   mas_rapido float_digits G_senal 1 2 = Inr 12 \<and>
   velocidad_kmh float_digits G_senal 3 4 = Inr 50 \<and>
   mas_rapido float_digits G_senal 2 3 = Inl TypeError"
proof -
  have c: "map_of MAX_SPEEDS ''footway'' = None"
    by (simp add: MAX_SPEEDS_def)
  note r1 = velocidad_kmh_resolucion [OF edge_attrs_G_vias(1), of float_digits]
  note r2 = velocidad_kmh_resolucion [OF edge_attrs_G_vias(2), of float_digits]
  note r3 = velocidad_kmh_resolucion [OF edge_attrs_G_senal(1), of float_digits]
  note r4 = velocidad_kmh_resolucion [OF edge_attrs_G_senal(2), of float_digits]
  note r5 = velocidad_kmh_resolucion [OF edge_attrs_G_senal(3), of float_digits]
  have v1: "velocidad_kmh float_digits G_vias 1 2 = Inr 30"
    using r1 float_digits_ejemplos by (simp add: calle_residencial_def)
  have v2: "velocidad_kmh float_digits G_vias 2 3 = Inl TypeError"
    using r2 c strip_ejemplos by (simp add: senda_def)
  have v3: "velocidad_kmh float_digits G_senal 1 2 = Inr 30"
    using r3 float_digits_ejemplos strip_ejemplos by (simp add: calle_senal_def)
  have v5: "velocidad_kmh float_digits G_senal 3 4 = Inr 50"
    using r5 float_digits_ejemplos strip_ejemplos by (simp add: senda_rapida_def)
  have m1: "mas_rapido float_digits G_vias 1 2 = Inr 12"
    using r1 v1 by (simp add: calle_residencial_def)
  have m2: "mas_rapido float_digits G_vias 2 3 = Inl TypeError"
    using r2 v2 by (simp add: senda_def)
  have m3: "mas_rapido float_digits G_senal 1 2 = Inr 12"
    using r3 v3 by (simp add: calle_senal_def)
  have m4: "mas_rapido float_digits G_senal 2 3 = Inl TypeError"
    using r4 by (simp add: calle_sin_largo_def)
  show ?thesis using v1 v2 v3 v5 m1 m2 m3 m4 by simp
qed

text \<open>
  C3 as the spec states it does not hold: the failure on an unknown road class is
  Python's \<open>TypeError\<close> and no error of its own.  The edge from 2 to 3 of \<open>G_vias\<close>
  (class footway, blank \<open>maxspeed\<close>) fails with it, and so does the edge from 2 to 3
  of \<open>G_senal\<close>, whose road class is known and resolves to 30 km/h but which has no
  length.
\<close>

theorem velocidad_kmh_TypeError_counterexample:
  "velocidad_kmh float_digits G_vias 2 3 = Inl TypeError \<and>
   mas_rapido float_digits G_vias 2 3 = Inl TypeError \<and>
   velocidad_kmh float_digits G_senal 2 3 = Inr 30 \<and>
   mas_rapido float_digits G_senal 2 3 = Inl TypeError"
  by (simp add: velocidad_kmh_def mas_rapido_def edge_attrs_def G_vias_def G_senal_def senda_def
      calle_sin_largo_def maxspeed_usable_def strip_def isspace_def MAX_SPEEDS_def
      float_digits_def digit_val_def)

section \<open>Expected delay at traffic lights\<close>

text \<open>
  C7.  Wherever \<open>mas_rapido\<close> returns a time, \<open>mas_rapido_semaforos\<close> returns that time
  plus 24, the product of the probability 0.8 and the stop of 30 s (floats modelled as
  reals).
\<close>

theorem mas_rapido_semaforos_adds_24:
  "mas_rapido flt G u v = Inr t \<Longrightarrow> mas_rapido_semaforos flt G u v = Inr (t + 24)"
  by (simp add: mas_rapido_semaforos_def)

theorem mas_rapido_semaforos_adds_24_witness:
  "mas_rapido float_digits G_vias 1 2 = Inr 12 \<and>
   mas_rapido_semaforos float_digits G_vias 1 2 = Inr 36"
proof -
  have m: "mas_rapido float_digits G_vias 1 2 = Inr 12"
    by (simp add: mas_rapido_def velocidad_kmh_def edge_attrs_def G_vias_def
        calle_residencial_def maxspeed_usable_def MAX_SPEEDS_def float_digits_def digit_val_def)
  from mas_rapido_semaforos_adds_24 [OF m] m show ?thesis by simp
qed

section \<open>Shortest paths\<close>

text \<open>
  C8.  With the destination equal to the origin, \<open>camino_minimo\<close> returns the path of
  that one node, whatever the graph and the weight function are, and whatever the
  function that computes the tree would do: the tree is not computed.
\<close>

theorem camino_minimo_mismo_nodo:
  "camino_minimo_con arbol G peso origen origen = Some (Inr [origen]) \<and>
   camino_minimo G peso origen origen = Some (Inr [origen])"
  by (simp add: camino_minimo_def camino_minimo_con_def)

text \<open>
  The keys of the dictionary that \<open>dijkstra\<close> returns are all the nodes of the graph but
  the origin, whether they can be reached or not.
\<close>

lemma keys_fold_update:
  "fst ` set (fold (\<lambda>v. AList.update v c) xs al) = set xs \<union> fst ` set al"
  by (induction xs arbitrary: al) (auto simp: dom_update)

lemma map_of_key: "map_of al x = Some y \<Longrightarrow> x \<in> fst ` set al"
  by (metis domI dom_map_of_conv_image_fst)

lemma relajar_dist_keys:
  "relajar G peso v st xs = Inr st' \<Longrightarrow> fst ` set (d_dist st') = fst ` set (d_dist st)"
proof (induction xs arbitrary: st)
  case Nil
  then show ?case by simp
next
  case (Cons x xs)
  from Cons.prems obtain w dx dv where
    w: "peso G v x = Inr w" and dx: "map_of (d_dist st) x = Some dx"
    and dv: "map_of (d_dist st) v = Some dv"
    by (auto split: sum.splits option.splits)
  have xk: "x \<in> fst ` set (d_dist st)"
    using dx by (rule map_of_key)
  show ?case
  proof (cases "dx > dv + w")
    case True
    let ?st = "st\<lparr>d_dist := AList.update x (dv + w) (d_dist st),
                  d_padre := AList.update x (Some v) (d_padre st),
                  d_Q := d_Q st @ [(dv + w, d_contador st, x)],
                  d_contador := Suc (d_contador st)\<rparr>"
    have r: "relajar G peso v ?st xs = Inr st'"
      using Cons.prems w dx dv True by simp
    have "fst ` set (d_dist st') = fst ` set (d_dist ?st)"
      by (rule Cons.IH [OF r])
    also have "\<dots> = fst ` set (d_dist st)"
      using xk by (auto simp: dom_update)
    finally show ?thesis .
  next
    case False
    then have r: "relajar G peso v st xs = Inr st'"
      using Cons.prems w dx dv by simp
    show ?thesis by (rule Cons.IH [OF r])
  qed
qed

lemma relajar_padre_keys_lower:
  "relajar G peso v st xs = Inr st' \<Longrightarrow> fst ` set (d_padre st) \<subseteq> fst ` set (d_padre st')"
proof (induction xs arbitrary: st)
  case Nil
  then show ?case by simp
next
  case (Cons x xs)
  from Cons.prems obtain w dx dv where
    w: "peso G v x = Inr w" and dx: "map_of (d_dist st) x = Some dx"
    and dv: "map_of (d_dist st) v = Some dv"
    by (auto split: sum.splits option.splits)
  show ?case
  proof (cases "dx > dv + w")
    case True
    let ?st = "st\<lparr>d_dist := AList.update x (dv + w) (d_dist st),
                  d_padre := AList.update x (Some v) (d_padre st),
                  d_Q := d_Q st @ [(dv + w, d_contador st, x)],
                  d_contador := Suc (d_contador st)\<rparr>"
    have r: "relajar G peso v ?st xs = Inr st'"
      using Cons.prems w dx dv True by simp
    have "fst ` set (d_padre st) \<subseteq> fst ` set (d_padre ?st)"
      by (auto simp: dom_update)
    also have "\<dots> \<subseteq> fst ` set (d_padre st')"
      by (rule Cons.IH [OF r])
    finally show ?thesis .
  next
    case False
    then have r: "relajar G peso v st xs = Inr st'"
      using Cons.prems w dx dv by simp
    show ?thesis by (rule Cons.IH [OF r])
  qed
qed

lemma relajar_padre_keys_upper:
  "relajar G peso v st xs = Inr st' \<Longrightarrow>
   fst ` set (d_padre st') \<subseteq> fst ` set (d_padre st) \<union> fst ` set (d_dist st)"
proof (induction xs arbitrary: st)
  case Nil
  then show ?case by simp
next
  case (Cons x xs)
  from Cons.prems obtain w dx dv where
    w: "peso G v x = Inr w" and dx: "map_of (d_dist st) x = Some dx"
    and dv: "map_of (d_dist st) v = Some dv"
    by (auto split: sum.splits option.splits)
  have xk: "x \<in> fst ` set (d_dist st)"
    using dx by (rule map_of_key)
  show ?case
  proof (cases "dx > dv + w")
    case True
    let ?st = "st\<lparr>d_dist := AList.update x (dv + w) (d_dist st),
                  d_padre := AList.update x (Some v) (d_padre st),
                  d_Q := d_Q st @ [(dv + w, d_contador st, x)],
                  d_contador := Suc (d_contador st)\<rparr>"
    have r: "relajar G peso v ?st xs = Inr st'"
      using Cons.prems w dx dv True by simp
    have "fst ` set (d_padre st') \<subseteq> fst ` set (d_padre ?st) \<union> fst ` set (d_dist ?st)"
      by (rule Cons.IH [OF r])
    also have "\<dots> \<subseteq> fst ` set (d_padre st) \<union> fst ` set (d_dist st)"
      using xk by (auto simp: dom_update)
    finally show ?thesis .
  next
    case False
    then have r: "relajar G peso v st xs = Inr st'"
      using Cons.prems w dx dv by simp
    show ?thesis by (rule Cons.IH [OF r])
  qed
qed

lemma keys_step:
  "D2 = D \<Longrightarrow> P \<subseteq> P2 \<Longrightarrow> P2 \<subseteq> P \<union> D \<Longrightarrow>
   P2 \<subseteq> P' \<and> P' \<subseteq> P2 \<union> D2 \<Longrightarrow> P \<subseteq> P' \<and> P' \<subseteq> P \<union> D"
  by blast

lemma dijkstra_loop_Nil:
  "d_Q st = [] \<Longrightarrow> dijkstra_loop G peso st = Inr st"
  by (subst dijkstra_loop.simps) simp

lemma dijkstra_loop_Cons:
  assumes "d_Q st = e # es"
  shows "dijkstra_loop G peso st =
     (case map_of (d_visitado st) (snd (snd (heap_min e es))) of
        None \<Rightarrow> Inl KeyError
      | Some vis \<Rightarrow>
          if vis then dijkstra_loop G peso (st\<lparr>d_Q := remove1 (heap_min e es) (e # es)\<rparr>)
          else (case neighbors G (snd (snd (heap_min e es))) of
                  Inl err \<Rightarrow> Inl err
                | Inr xs \<Rightarrow>
                    (case relajar G peso (snd (snd (heap_min e es)))
                            (st\<lparr>d_Q := remove1 (heap_min e es) (e # es),
                                d_visitado := AList.update (snd (snd (heap_min e es))) True
                                               (d_visitado st)\<rparr>) xs of
                       Inl err \<Rightarrow> Inl err
                     | Inr st' \<Rightarrow> dijkstra_loop G peso st')))"
  by (subst dijkstra_loop.simps) (simp only: assms list.case Let_def)

lemma dijkstra_loop_keys:
  "dijkstra_loop G peso st = Inr st' \<Longrightarrow>
   fst ` set (d_padre st) \<subseteq> fst ` set (d_padre st') \<and>
   fst ` set (d_padre st') \<subseteq> fst ` set (d_padre st) \<union> fst ` set (d_dist st)"
proof (induction G peso st rule: dijkstra_loop.induct)
  case (1 G peso st)
  show ?case
  proof (cases "d_Q st")
    case Nil
    with "1.prems" show ?thesis by (simp add: dijkstra_loop_Nil)
  next
    case (Cons e es)
    define m where "m = heap_min e es"
    define v where "v = snd (snd m)"
    define Q' where "Q' = remove1 m (e # es)"
    note eq = dijkstra_loop_Cons [OF Cons, of G peso, folded m_def, folded v_def Q'_def]
    from "1.prems"(1) obtain vis where vis: "map_of (d_visitado st) v = Some vis"
      unfolding eq by (cases "map_of (d_visitado st) v") simp_all
    show ?thesis
    proof (cases vis)
      case True
      have r: "dijkstra_loop G peso (st\<lparr>d_Q := Q'\<rparr>) = Inr st'"
        using "1.prems"(1) unfolding eq by (simp add: vis True)
      from "1.IH"(1) [OF Cons m_def v_def Q'_def vis True r]
      show ?thesis by simp
    next
      case False
      let ?st1 = "st\<lparr>d_Q := Q', d_visitado := AList.update v True (d_visitado st)\<rparr>"
      from "1.prems"(1) obtain xs where xs: "neighbors G v = Inr xs"
        unfolding eq by (cases "neighbors G v") (simp_all add: vis False)
      from "1.prems"(1) obtain st2 where st2: "relajar G peso v ?st1 xs = Inr st2"
        unfolding eq by (cases "relajar G peso v ?st1 xs") (simp_all add: vis False xs)
      have r: "dijkstra_loop G peso st2 = Inr st'"
        using "1.prems"(1) unfolding eq by (simp add: vis False xs st2)
      have a: "fst ` set (d_dist st2) = fst ` set (d_dist st)"
        using relajar_dist_keys [OF st2] by simp
      have b: "fst ` set (d_padre st) \<subseteq> fst ` set (d_padre st2)"
        using relajar_padre_keys_lower [OF st2] by simp
      have c: "fst ` set (d_padre st2) \<subseteq> fst ` set (d_padre st) \<union> fst ` set (d_dist st)"
        using relajar_padre_keys_upper [OF st2] by simp
      have d: "fst ` set (d_padre st2) \<subseteq> fst ` set (d_padre st') \<and>
         fst ` set (d_padre st') \<subseteq> fst ` set (d_padre st2) \<union> fst ` set (d_dist st2)"
        by (rule "1.IH"(2) [OF Cons m_def v_def Q'_def vis False xs st2 r])
      show ?thesis by (rule keys_step [OF a b c d])
    qed
  qed
qed

lemma dijkstra_keys:
  assumes "dijkstra G peso origen = Inr padres"
  shows "fst ` set padres = set (nodes G) - {origen}"
proof -
  let ?st0 = "\<lparr>d_padre = fold (\<lambda>v. AList.update v None) (nodes G) [],
               d_dist = AList.update origen 0 (fold (\<lambda>v. AList.update v INFTY) (nodes G) []),
               d_visitado = fold (\<lambda>v. AList.update v False) (nodes G) [],
               d_Q = [(0, 0, origen)],
               d_contador = 1\<rparr>"
  from assms obtain st where
    st: "dijkstra_loop G peso ?st0 = Inr st" and p: "padres = AList.delete origen (d_padre st)"
    by (auto simp: dijkstra_def Let_def split: sum.splits)
  have k0: "fst ` set (d_padre ?st0) = set (nodes G)"
    by (simp add: keys_fold_update)
  have k1: "fst ` set (d_dist ?st0) = insert origen (set (nodes G))"
    by (simp add: keys_fold_update dom_update)
  from dijkstra_loop_keys [OF st] k0 k1
  have "set (nodes G) \<subseteq> fst ` set (d_padre st)"
    "fst ` set (d_padre st) \<subseteq> insert origen (set (nodes G))"
    by auto
  moreover have "fst ` set padres = fst ` set (d_padre st) - {origen}"
    unfolding p using delete_keys [of origen "d_padre st"]
    by (metis list.set_map set_removeAll)
  ultimately show ?thesis by auto
qed

text \<open>
  C1.  In the graph of the nodes 1 and 2 without an edge, 2 is not reachable from 1 and
  \<open>camino_minimo\<close> from 1 to 2 raises \<open>KeyError\<close>: 2 is a key of the dictionary, with the
  parent \<open>None\<close>.
\<close>

theorem camino_minimo_inalcanzable_KeyError:
  "camino_minimo G_aislado mas_corto 1 2 = Some (Inl KeyError)"
  by (simp add: camino_minimo_def camino_minimo_con_def dijkstra_def G_aislado_def
      neighbors_def INFTY_def subir.simps dijkstra_loop.simps)

text \<open>
  C2.  In the same graph the dictionary of \<open>dijkstra\<close> from 1 has the key 2, which is not
  reachable from 1.
\<close>

theorem dijkstra_aislado_keys:
  "dijkstra G_aislado mas_corto 1 = Inr [(2, None)]"
  by (simp add: dijkstra_def G_aislado_def neighbors_def INFTY_def dijkstra_loop.simps)

section \<open>Turns\<close>

text \<open>
  C5.  At an index \<open>i\<close> with \<open>0 < i < len(camino) - 1\<close> whose three nodes have
  coordinates, \<open>_calcular_giro\<close> works on the arrival vector \<open>node[i] - node[i-1]\<close> and
  the departure vector \<open>node[i+1] - node[i]\<close>.  It reports no turn when one of them is
  the zero vector, and no turn when \<open>|cross| < 1e-6\<close> and \<open>dot > 0\<close>.  In every other
  case it reports a turn: to the left exactly when \<open>cross > 0\<close>, to the right exactly
  when \<open>cross \<le> 0\<close>.
\<close>

theorem calcular_giro_clasifica:
  assumes "0 < i" "i < int (length camino) - 1"
    and "node_coord G node_x (camino ! nat (i - 1)) = Inr x0"
    and "node_coord G node_y (camino ! nat (i - 1)) = Inr y0"
    and "node_coord G node_x (camino ! nat i) = Inr x1"
    and "node_coord G node_y (camino ! nat i) = Inr y1"
    and "node_coord G node_x (camino ! nat (i + 1)) = Inr x2"
    and "node_coord G node_y (camino ! nat (i + 1)) = Inr y2"
    and "v1x = x1 - x0" "v1y = y1 - y0" "v2x = x2 - x1" "v2y = y2 - y1"
    and "cross = v1x * v2y - v1y * v2x" "dot = v1x * v2x + v1y * v2y"
  shows "((v1x = 0 \<and> v1y = 0) \<or> (v2x = 0 \<and> v2y = 0)
            \<longrightarrow> calcular_giro camino G i = Inr None) \<and>
         (\<bar>cross\<bar> < 1 / 1000000 \<and> dot > 0 \<longrightarrow> calcular_giro camino G i = Inr None) \<and>
         (\<not> (v1x = 0 \<and> v1y = 0) \<and> \<not> (v2x = 0 \<and> v2y = 0) \<and>
          \<not> (\<bar>cross\<bar> < 1 / 1000000 \<and> dot > 0) \<longrightarrow>
            (calcular_giro camino G i = Inr (Some ''gira a la izquierda'') \<longleftrightarrow> cross > 0) \<and>
            (calcular_giro camino G i = Inr (Some ''gira a la derecha'') \<longleftrightarrow> cross \<le> 0) \<and>
            calcular_giro camino G i \<noteq> Inr None)"
  using assms by (auto simp: calcular_giro_def giro_vectores_def Let_def)

theorem calcular_giro_clasifica_witness:
  "calcular_giro [1, 2, 3] G_esquina 1 = Inr (Some ''gira a la izquierda'') \<and>
   calcular_giro [3, 2, 1] G_esquina 1 = Inr (Some ''gira a la derecha'') \<and>
   calcular_giro [1, 2, 1] G_esquina 1 = Inr (Some ''gira a la derecha'')"
proof -
  have a: "calcular_giro [1, 2, 3] G_esquina 1 = Inr (Some ''gira a la izquierda'')"
    using calcular_giro_clasifica [where i = 1 and camino = "[1, 2, 3]" and G = G_esquina
        and ?x0.0 = 0 and ?y0.0 = 0 and ?x1.0 = 1 and ?y1.0 = 0 and ?x2.0 = 1 and ?y2.0 = 1,
        OF _ _ _ _ _ _ _ _ refl refl refl refl refl refl]
    by (simp add: node_coord_def G_esquina_def)
  have b: "calcular_giro [3, 2, 1] G_esquina 1 = Inr (Some ''gira a la derecha'')"
    using calcular_giro_clasifica [where i = 1 and camino = "[3, 2, 1]" and G = G_esquina
        and ?x0.0 = 1 and ?y0.0 = 1 and ?x1.0 = 1 and ?y1.0 = 0 and ?x2.0 = 0 and ?y2.0 = 0,
        OF _ _ _ _ _ _ _ _ refl refl refl refl refl refl]
    by (simp add: node_coord_def G_esquina_def)
  have c: "calcular_giro [1, 2, 1] G_esquina 1 = Inr (Some ''gira a la derecha'')"
    using calcular_giro_clasifica [where i = 1 and camino = "[1, 2, 1]" and G = G_esquina
        and ?x0.0 = 0 and ?y0.0 = 0 and ?x1.0 = 1 and ?y1.0 = 0 and ?x2.0 = 0 and ?y2.0 = 0,
        OF _ _ _ _ _ _ _ _ refl refl refl refl refl refl]
    by (simp add: node_coord_def G_esquina_def)
  from a b c show ?thesis by simp
qed

section \<open>Instructions for a path with edges without length\<close>

lemma cadena_append:
  "cadena f a (ss @ [s]) b \<longleftrightarrow>
     cadena f a ss (s_inicio s) \<and> s_inicio s \<le> s_fin s \<and>
     s_dist s = sum f {s_inicio s..<s_fin s} \<and> s_fin s = b"
  by (induction ss arbitrary: a) auto

lemma cadena_le: "cadena f a ss b \<Longrightarrow> a \<le> b"
proof (induction ss arbitrary: a)
  case Nil
  then show ?case by simp
next
  case (Cons s ss)
  then have "a \<le> s_fin s" "s_fin s \<le> b" by auto
  then show ?case by simp
qed

lemma cadena_sum:
  "cadena f a ss b \<Longrightarrow> sum_list (map s_dist ss) = sum f {a..<b}"
proof (induction ss arbitrary: a)
  case Nil
  then show ?case by simp
next
  case (Cons s ss)
  then have c: "cadena f (s_fin s) ss b" and d: "s_dist s = sum f {a..<s_fin s}"
    and le: "a \<le> s_fin s"
    by simp_all
  from cadena_le [OF c] have le2: "s_fin s \<le> b" .
  have "sum_list (map s_dist (s # ss)) = sum f {a..<s_fin s} + sum f {s_fin s..<b}"
    using Cons.IH [OF c] d by simp
  also have "\<dots> = sum f {a..<b}"
    using le le2 by (rule sum.atLeastLessThan_concat)
  finally show ?case .
qed

lemma cadena_each:
  "cadena f a ss b \<Longrightarrow> \<forall>s\<in>set ss. s_dist s = sum f {s_inicio s..<s_fin s}"
  by (induction ss arbitrary: a) auto

lemma nombre_calle_ok:
  "edge_attrs G u v = Inr d \<Longrightarrow> \<exists>n. nombre_calle G u v = Inr n"
  by (simp add: nombre_calle_def split: option.splits)

lemma largo_edge:
  "edge_attrs G (camino ! i) (camino ! Suc i) = Inr d \<Longrightarrow> largo G camino i = longitud_o_cero d"
  by (simp add: largo_def longitud_o_cero_def)

lemma segmentar_inv:
  assumes "\<forall>i. k \<le> i \<and> i < n \<longrightarrow> (\<exists>d. edge_attrs G (camino ! i) (camino ! Suc i) = Inr d)"
    and "cadena (largo G camino) 0 (segmentos st) (inicio_idx st)"
    and "inicio_idx st < k"
    and "dist_actual st = sum (largo G camino) {inicio_idx st..<k}"
    and "k \<le> n"
  shows "\<exists>st'. segmentar G camino [k..<n] st = Inr st' \<and>
           cadena (largo G camino) 0 (segmentos st') (inicio_idx st') \<and>
           inicio_idx st' < n \<and>
           dist_actual st' = sum (largo G camino) {inicio_idx st'..<n}"
  using assms
proof (induction "n - k" arbitrary: k st)
  case 0
  then have "k = n" by simp
  with 0 show ?case by simp
next
  case (Suc m)
  then have kn: "k < n" by simp
  then have upt: "[k..<n] = k # [Suc k..<n]" by (rule upt_conv_Cons)
  from Suc.prems(1) kn obtain d where d: "edge_attrs G (camino ! k) (camino ! Suc k) = Inr d"
    by blast
  from nombre_calle_ok [OF d] obtain nm where nm: "nombre_calle G (camino ! k) (camino ! Suc k) = Inr nm"
    by blast
  have lk: "largo G camino k = longitud_o_cero d"
    using d by (rule largo_edge)
  have m: "m = n - Suc k" using Suc.hyps(2) by simp
  have edges': "\<forall>i. Suc k \<le> i \<and> i < n \<longrightarrow> (\<exists>d. edge_attrs G (camino ! i) (camino ! Suc i) = Inr d)"
    using Suc.prems(1) by auto
  have kn': "Suc k \<le> n" using kn by simp
  show ?case
  proof (cases "nm = nombre_actual st")
    case True
    let ?st = "st\<lparr>dist_actual := dist_actual st + longitud_o_cero d\<rparr>"
    have step: "segmentar G camino [k..<n] st = segmentar G camino [Suc k..<n] ?st"
      unfolding upt using d nm True by (simp add: Let_def)
    have a: "cadena (largo G camino) 0 (segmentos ?st) (inicio_idx ?st)"
      using Suc.prems(2) by simp
    have b: "inicio_idx ?st < Suc k" using Suc.prems(3) by simp
    have c: "dist_actual ?st = sum (largo G camino) {inicio_idx ?st..<Suc k}"
      using Suc.prems(3,4) lk by (simp add: sum.atLeastLessThan_Suc)
    from Suc.hyps(1) [OF m edges' a b c kn'] show ?thesis
      unfolding step by simp
  next
    case False
    let ?st = "st\<lparr>segmentos := segmentos st @
                     [\<lparr>s_nombre = nombre_actual st, s_dist = dist_actual st,
                       s_inicio = inicio_idx st, s_fin = k\<rparr>],
                  nombre_actual := nm,
                  dist_actual := longitud_o_cero d,
                  inicio_idx := k\<rparr>"
    have step: "segmentar G camino [k..<n] st = segmentar G camino [Suc k..<n] ?st"
      unfolding upt using d nm False by (simp add: Let_def)
    have a: "cadena (largo G camino) 0 (segmentos ?st) (inicio_idx ?st)"
      using Suc.prems(2,3,4) by (simp add: cadena_append)
    have b: "inicio_idx ?st < Suc k" by simp
    have c: "dist_actual ?st = sum (largo G camino) {inicio_idx ?st..<Suc k}"
      using lk by simp
    from Suc.hyps(1) [OF m edges' a b c kn'] show ?thesis
      unfolding step by simp
  qed
qed

lemma segmentos_de_cadena:
  assumes "2 \<le> length camino"
    and "\<forall>i. Suc i < length camino \<longrightarrow> (\<exists>d. edge_attrs G (camino ! i) (camino ! Suc i) = Inr d)"
  shows "\<exists>segs. segmentos_de camino G = Inr segs \<and>
           cadena (largo G camino) 0 segs (length camino - 1)"
proof -
  have "Suc 0 < length camino" using assms(1) by simp
  with assms(2) obtain d0 where d0: "edge_attrs G (camino ! 0) (camino ! Suc 0) = Inr d0"
    by blast
  from nombre_calle_ok [OF d0] obtain n0 where n0: "nombre_calle G (camino ! 0) (camino ! Suc 0) = Inr n0"
    by blast
  let ?st0 = "\<lparr>segmentos = [], nombre_actual = n0,
               dist_actual = longitud_o_cero d0, inicio_idx = 0\<rparr>"
  have e: "\<forall>i. 1 \<le> i \<and> i < length camino - 1 \<longrightarrow>
             (\<exists>d. edge_attrs G (camino ! i) (camino ! Suc i) = Inr d)"
    using assms(2) by auto
  have a: "cadena (largo G camino) 0 (segmentos ?st0) (inicio_idx ?st0)" by simp
  have b: "inicio_idx ?st0 < 1" by simp
  have c: "dist_actual ?st0 = sum (largo G camino) {inicio_idx ?st0..<1}"
    using largo_edge [OF d0] by simp
  have k: "1 \<le> length camino - 1" using assms(1) by simp
  from segmentar_inv [OF e a b c k] obtain st' where
    s: "segmentar G camino [1..<length camino - 1] ?st0 = Inr st'"
    and c': "cadena (largo G camino) 0 (segmentos st') (inicio_idx st')"
    and i': "inicio_idx st' < length camino - 1"
    and d': "dist_actual st' = sum (largo G camino) {inicio_idx st'..<length camino - 1}"
    by blast
  have "segmentos_de camino G =
      Inr (segmentos st' @ [\<lparr>s_nombre = nombre_actual st', s_dist = dist_actual st',
                              s_inicio = inicio_idx st', s_fin = length camino - 1\<rparr>])"
    using d0 n0 s by (simp add: segmentos_de_def)
  moreover have "cadena (largo G camino) 0
      (segmentos st' @ [\<lparr>s_nombre = nombre_actual st', s_dist = dist_actual st',
                              s_inicio = inicio_idx st', s_fin = length camino - 1\<rparr>])
      (length camino - 1)"
    using c' i' d' by (simp add: cadena_append)
  ultimately show ?thesis by blast
qed

lemma calcular_giro_ok:
  assumes "\<forall>m\<in>set camino. (\<exists>x. node_coord G node_x m = Inr x) \<and> (\<exists>y. node_coord G node_y m = Inr y)"
  shows "\<exists>g. calcular_giro camino G i = Inr g"
proof (cases "i \<le> 0 \<or> i + 1 \<ge> int (length camino)")
  case True
  then show ?thesis by (simp add: calcular_giro_def)
next
  case False
  then have "nat (i - 1) < length camino" "nat i < length camino" "nat (i + 1) < length camino"
    by auto
  then have "camino ! nat (i - 1) \<in> set camino" "camino ! nat i \<in> set camino"
    "camino ! nat (i + 1) \<in> set camino"
    by (simp_all only: nth_mem)
  with assms obtain x0 y0 x1 y1 x2 y2 where
    "node_coord G node_x (camino ! nat (i - 1)) = Inr x0"
    "node_coord G node_y (camino ! nat (i - 1)) = Inr y0"
    "node_coord G node_x (camino ! nat i) = Inr x1"
    "node_coord G node_y (camino ! nat i) = Inr y1"
    "node_coord G node_x (camino ! nat (i + 1)) = Inr x2"
    "node_coord G node_y (camino ! nat (i + 1)) = Inr y2"
    by metis
  with False show ?thesis by (simp add: calcular_giro_def Let_def)
qed

lemma frases_ok:
  assumes "\<forall>m\<in>set camino. (\<exists>x. node_coord G node_x m = Inr x) \<and> (\<exists>y. node_coord G node_y m = Inr y)"
  shows "\<exists>ins. frases fmt2 camino G j segs (acc, t) =
                  Inr (acc @ ins, t + sum_list (map s_dist segs)) \<and>
               length ins = length segs"
proof (induction segs arbitrary: j acc t)
  case Nil
  then show ?case by simp
next
  case (Cons seg segs)
  obtain g where g: "(if j = 0 then Inr None else calcular_giro camino G (int (s_inicio seg))) = Inr g"
    using calcular_giro_ok [OF assms, of "int (s_inicio seg)"] by (cases "j = 0") auto
  from Cons.IH [of "Suc j" "acc @ [frase_segmento fmt2 (s_nombre seg) (s_dist seg) (j = 0) g]"
      "t + s_dist seg"]
  obtain ins where
    i: "frases fmt2 camino G (Suc j) segs
          (acc @ [frase_segmento fmt2 (s_nombre seg) (s_dist seg) (j = 0) g], t + s_dist seg) =
        Inr ((acc @ [frase_segmento fmt2 (s_nombre seg) (s_dist seg) (j = 0) g]) @ ins,
             t + s_dist seg + sum_list (map s_dist segs))"
    and l: "length ins = length segs"
    by blast
  have "frases fmt2 camino G j (seg # segs) (acc, t) =
      Inr (acc @ (frase_segmento fmt2 (s_nombre seg) (s_dist seg) (j = 0) g # ins),
           t + sum_list (map s_dist (seg # segs)))"
    using g i by (simp add: add.assoc)
  with l show ?case
    by (intro exI [of _ "frase_segmento fmt2 (s_nombre seg) (s_dist seg) (j = 0) g # ins"]) simp
qed

text \<open>
  C10.  For a path of at least two nodes whose consecutive nodes are joined by edges of
  the graph (and whose nodes carry coordinates, which the turns need),
  \<open>construir_instrucciones\<close> does not fail, whether the edges have a length or not.  The
  distance of every segment is the sum of \<open>largo\<close> over its edges, and the last line
  gives the sum of \<open>largo\<close> over all the edges of the path; \<open>largo\<close> is 0 for an edge
  without the attribute.  There is one phrase for each segment.
\<close>

theorem construir_instrucciones_sin_longitud:
  assumes "2 \<le> length camino"
    and "\<forall>i. Suc i < length camino \<longrightarrow> (\<exists>d. edge_attrs G (camino ! i) (camino ! Suc i) = Inr d)"
    and "\<forall>m\<in>set camino. (\<exists>x. node_coord G node_x m = Inr x) \<and> (\<exists>y. node_coord G node_y m = Inr y)"
  shows "\<exists>segs frs.
           segmentos_de camino G = Inr segs \<and>
           (\<forall>seg\<in>set segs. s_dist seg = (\<Sum>i = s_inicio seg..<s_fin seg. largo G camino i)) \<and>
           construir_instrucciones fmt2 camino G =
             Inr (frs @ [''Distancia total aproximada: '' @
                         fmt2 ((\<Sum>i<length camino - 1. largo G camino i) / 1000) @ '' km.'']) \<and>
           length frs = length segs \<and>
           (\<forall>i d. edge_attrs G (camino ! i) (camino ! Suc i) = Inr d \<and> e_length d = None
                  \<longrightarrow> largo G camino i = 0)"
proof -
  from segmentos_de_cadena [OF assms(1,2)] obtain segs where
    s: "segmentos_de camino G = Inr segs"
    and c: "cadena (largo G camino) 0 segs (length camino - 1)"
    by blast
  from frases_ok [OF assms(3), of fmt2 0 segs "[]" 0] obtain frs where
    f: "frases fmt2 camino G 0 segs ([], 0) = Inr (frs, sum_list (map s_dist segs))"
    and l: "length frs = length segs"
    by auto
  have t: "sum_list (map s_dist segs) = (\<Sum>i<length camino - 1. largo G camino i)"
    using cadena_sum [OF c] by (simp add: lessThan_atLeast0)
  have ne: "camino \<noteq> []" "length camino \<noteq> 1" using assms(1) by auto
  have "construir_instrucciones fmt2 camino G =
      Inr (frs @ [''Distancia total aproximada: '' @
                  fmt2 ((\<Sum>i<length camino - 1. largo G camino i) / 1000) @ '' km.''])"
    using s f t ne by (simp add: construir_instrucciones_def)
  moreover have "\<forall>i d. edge_attrs G (camino ! i) (camino ! Suc i) = Inr d \<and> e_length d = None
                  \<longrightarrow> largo G camino i = 0"
    by (simp add: largo_def)
  ultimately show ?thesis
    using s l cadena_each [OF c] by blast
qed

theorem construir_instrucciones_sin_longitud_witness:
  "edge_attrs G_esquina 2 3 = Inr side_st \<and> e_length side_st = None \<and>
   largo G_esquina [1, 2, 3] 1 = 0 \<and>
   (\<exists>segs frs.
      segmentos_de [1, 2, 3] G_esquina = Inr segs \<and>
      construir_instrucciones dos_decimales [1, 2, 3] G_esquina =
        Inr (frs @ [''Distancia total aproximada: '' @
                    dos_decimales ((\<Sum>i<2. largo G_esquina [1, 2, 3] i) / 1000) @ '' km.'']) \<and>
      length frs = length segs)"
proof -
  have e: "edge_attrs G_esquina 2 3 = Inr side_st" "edge_attrs G_esquina (Suc 0) 2 = Inr main_st"
    by (simp_all add: edge_attrs_def G_esquina_def)
  have h1: "2 \<le> length [1, 2, 3 :: nat]" by simp
  have h2: "\<forall>i. Suc i < length [1, 2, 3 :: nat] \<longrightarrow>
              (\<exists>d. edge_attrs G_esquina ([1, 2, 3] ! i) ([1, 2, 3] ! Suc i) = Inr d)"
  proof (intro allI impI)
    fix i :: nat
    assume "Suc i < length [1, 2, 3 :: nat]"
    then have "i = 0 \<or> i = 1" by auto
    then show "\<exists>d. edge_attrs G_esquina ([1, 2, 3] ! i) ([1, 2, 3] ! Suc i) = Inr d"
      using e by auto
  qed
  have h3: "\<forall>m\<in>set [1, 2, 3 :: nat]. (\<exists>x. node_coord G_esquina node_x m = Inr x) \<and>
              (\<exists>y. node_coord G_esquina node_y m = Inr y)"
    by (simp add: node_coord_def G_esquina_def)
  from construir_instrucciones_sin_longitud [OF h1 h2 h3, of dos_decimales]
  obtain segs frs where
    a: "segmentos_de [1, 2, 3] G_esquina = Inr segs"
    and b: "construir_instrucciones dos_decimales [1, 2, 3] G_esquina =
        Inr (frs @ [''Distancia total aproximada: '' @
                    dos_decimales ((\<Sum>i<length [1, 2, 3 :: nat] - 1. largo G_esquina [1, 2, 3] i) / 1000) @ '' km.''])"
    and c: "length frs = length segs"
    and d: "\<forall>i d. edge_attrs G_esquina ([1, 2, 3] ! i) ([1, 2, 3] ! Suc i) = Inr d \<and> e_length d = None
                  \<longrightarrow> largo G_esquina [1, 2, 3] i = 0"
    by blast
  have n: "e_length side_st = None" by (simp add: side_st_def)
  have z: "largo G_esquina [1, 2, 3] 1 = 0"
    using d [rule_format, of 1 side_st] e n by simp
  have b': "construir_instrucciones dos_decimales [1, 2, 3] G_esquina =
        Inr (frs @ [''Distancia total aproximada: '' @
                    dos_decimales ((\<Sum>i<2. largo G_esquina [1, 2, 3] i) / 1000) @ '' km.''])"
  proof -
    have len: "length [1, 2, 3 :: nat] - 1 = 2" by simp
    show ?thesis using b unfolding len .
  qed
  from e(1) n z a b' c show ?thesis by blast
qed

text \<open>
  The corner of the spec's scenario, where the second edge has no length: two phrases,
  a turn to the left before the second, and the total.
\<close>

lemma construir_instrucciones_esquina:
  "construir_instrucciones dos_decimales [1, 2, 3] G_esquina =
     Inr [''Sal desde el origen y sigue por Main St durante 0.10 km.'',
          ''Luego gira a la izquierda y sigue por Side St durante 0.00 km.'',
          ''Distancia total aproximada: 0.10 km.'']"
  by (simp add: construir_instrucciones_def segmentos_de_def G_esquina_def nombre_calle_def
      edge_attrs_def main_st_def side_st_def strip_def isspace_def longitud_o_cero_def
      calcular_giro_def node_coord_def giro_vectores_def frase_segmento_def via_sin_nombre_def
      dos_decimales_def digito_def Let_def)

section \<open>Kruskal\<close>

subsection \<open>Connection\<close>

lemma conexion_refl: "(x, x) \<in> conexion E"
  by (simp add: conexion_def)

lemma conexion_sym: "(x, y) \<in> conexion E \<Longrightarrow> (y, x) \<in> conexion E"
proof -
  have "sym (E \<union> E\<inverse>)" by (auto simp: sym_def)
  then have "sym ((E \<union> E\<inverse>)\<^sup>*)" by (rule sym_rtrancl)
  then show "(x, y) \<in> conexion E \<Longrightarrow> (y, x) \<in> conexion E"
    unfolding conexion_def by (rule symD)
qed

lemma conexion_trans:
  "(x, y) \<in> conexion E \<Longrightarrow> (y, z) \<in> conexion E \<Longrightarrow> (x, z) \<in> conexion E"
  unfolding conexion_def by (rule rtrancl_trans)

lemma conexion_edge: "(a, b) \<in> E \<Longrightarrow> (a, b) \<in> conexion E"
  unfolding conexion_def by blast

lemma conexion_mono: "E \<subseteq> F \<Longrightarrow> conexion E \<subseteq> conexion F"
  unfolding conexion_def by (intro rtrancl_mono) blast

lemma conexion_empty: "conexion {} = Id"
  by (simp add: conexion_def)

lemma conexion_insert_elim:
  assumes "(x, y) \<in> conexion (insert (a, b) E)"
  shows "(x, y) \<in> conexion E \<or>
         ((x, a) \<in> conexion E \<and> (b, y) \<in> conexion E) \<or>
         ((x, b) \<in> conexion E \<and> (a, y) \<in> conexion E)"
  using assms unfolding conexion_def
proof (induction rule: rtrancl_induct)
  case base
  then show ?case by simp
next
  case (step y z)
  let ?R = "(E \<union> E\<inverse>)\<^sup>*"
  from step.hyps(2) have yz: "(y, z) \<in> E \<union> E\<inverse> \<or> (y = a \<and> z = b) \<or> (y = b \<and> z = a)"
    by auto
  have 1: "(y, z) \<in> E \<union> E\<inverse> \<Longrightarrow> (u, y) \<in> ?R \<Longrightarrow> (u, z) \<in> ?R" for u
    by (rule rtrancl_into_rtrancl)
  from step.IH yz show ?case
    by (metis 1 rtrancl.rtrancl_refl)
qed

lemma conexion_insert_iff:
  "(x, y) \<in> conexion (insert (a, b) E) \<longleftrightarrow>
     (x, y) \<in> conexion E \<or>
     ((x, a) \<in> conexion E \<and> (b, y) \<in> conexion E) \<or>
     ((x, b) \<in> conexion E \<and> (a, y) \<in> conexion E)"
proof
  assume "(x, y) \<in> conexion (insert (a, b) E)"
  then show "(x, y) \<in> conexion E \<or>
     ((x, a) \<in> conexion E \<and> (b, y) \<in> conexion E) \<or>
     ((x, b) \<in> conexion E \<and> (a, y) \<in> conexion E)"
    by (rule conexion_insert_elim)
next
  let ?F = "insert (a, b) E"
  have m: "conexion E \<subseteq> conexion ?F" by (rule conexion_mono) blast
  have ab: "(a, b) \<in> conexion ?F" by (rule conexion_edge) simp
  have ba: "(b, a) \<in> conexion ?F" using ab by (rule conexion_sym)
  assume "(x, y) \<in> conexion E \<or>
     ((x, a) \<in> conexion E \<and> (b, y) \<in> conexion E) \<or>
     ((x, b) \<in> conexion E \<and> (a, y) \<in> conexion E)"
  then show "(x, y) \<in> conexion ?F"
    using m ab ba by (meson conexion_trans subsetD)
qed

lemma conexion_insert_absorb:
  assumes "(a, b) \<in> conexion E"
  shows "conexion (insert (a, b) E) = conexion E"
proof -
  have "(x, y) \<in> conexion (insert (a, b) E) \<longleftrightarrow> (x, y) \<in> conexion E" for x y
    unfolding conexion_insert_iff
    using assms by (meson conexion_sym conexion_trans)
  then show ?thesis by auto
qed

subsection \<open>Components\<close>

lemma componente_self: "u \<in> V \<Longrightarrow> u \<in> componente V E u"
  by (simp add: componente_def conexion_refl)

lemma componente_subset: "componente V E u \<subseteq> V"
  by (auto simp: componente_def)

lemma componente_eq_iff:
  assumes "u \<in> V" "v \<in> V"
  shows "componente V E u = componente V E v \<longleftrightarrow> (u, v) \<in> conexion E"
proof
  assume "componente V E u = componente V E v"
  with componente_self [OF assms(2), of E] have "v \<in> componente V E u" by simp
  then show "(u, v) \<in> conexion E" by (simp add: componente_def)
next
  assume c: "(u, v) \<in> conexion E"
  then have "(u, x) \<in> conexion E \<longleftrightarrow> (v, x) \<in> conexion E" for x
    by (meson conexion_sym conexion_trans)
  then show "componente V E u = componente V E v"
    by (simp add: componente_def)
qed

lemma componente_mem_eq:
  assumes "u \<in> V" "w \<in> componente V E u"
  shows "componente V E w = componente V E u"
proof -
  from assms(2) have "w \<in> V" "(u, w) \<in> conexion E" by (simp_all add: componente_def)
  then show ?thesis using componente_eq_iff [OF assms(1) \<open>w \<in> V\<close>, of E] by simp
qed

lemma componente_insert:
  assumes "a \<in> V" "b \<in> V" "w \<in> V"
  shows "componente V (insert (a, b) E) w =
         (if w \<in> componente V E a \<union> componente V E b
          then componente V E a \<union> componente V E b
          else componente V E w)"
proof (cases "w \<in> componente V E a \<union> componente V E b")
  case True
  then have w: "(a, w) \<in> conexion E \<or> (b, w) \<in> conexion E"
    by (auto simp: componente_def)
  have "(w, v) \<in> conexion (insert (a, b) E) \<longleftrightarrow> (a, v) \<in> conexion E \<or> (b, v) \<in> conexion E" for v
    unfolding conexion_insert_iff using w
    by (meson conexion_refl conexion_sym conexion_trans)
  then have "componente V (insert (a, b) E) w = componente V E a \<union> componente V E b"
    by (auto simp: componente_def)
  with True show ?thesis by simp
next
  case False
  then have w: "(a, w) \<notin> conexion E" "(b, w) \<notin> conexion E"
    using assms(3) by (auto simp: componente_def)
  have "(w, v) \<in> conexion (insert (a, b) E) \<longleftrightarrow> (w, v) \<in> conexion E" for v
    unfolding conexion_insert_iff using w
    by (meson conexion_sym)
  then have "componente V (insert (a, b) E) w = componente V E w"
    by (simp add: componente_def)
  with False show ?thesis by simp
qed

lemma componentes_insert:
  assumes "a \<in> V" "b \<in> V" "(a, b) \<notin> conexion E"
  shows "componente V (insert (a, b) E) ` V =
         insert (componente V E a \<union> componente V E b)
           (componente V E ` V - {componente V E a, componente V E b})"
    (is "?L = insert ?AB (?K - {?A, ?B})")
proof (intro set_eqI iffI)
  fix X
  assume "X \<in> ?L"
  then obtain w where w: "w \<in> V" and X: "X = componente V (insert (a, b) E) w" by blast
  show "X \<in> insert ?AB (?K - {?A, ?B})"
  proof (cases "w \<in> ?AB")
    case True
    then show ?thesis using X componente_insert [OF assms(1,2) w, of E] by simp
  next
    case False
    then have X': "X = componente V E w"
      using X componente_insert [OF assms(1,2) w, of E] by simp
    have "w \<in> componente V E w" using w by (rule componente_self)
    with False have "componente V E w \<noteq> ?A" "componente V E w \<noteq> ?B" by auto
    then show ?thesis using X' w by blast
  qed
next
  fix X
  assume "X \<in> insert ?AB (?K - {?A, ?B})"
  then consider "X = ?AB" | "X \<in> ?K" "X \<noteq> ?A" "X \<noteq> ?B" by blast
  then show "X \<in> ?L"
  proof cases
    case 1
    have "a \<in> ?AB" using componente_self [OF assms(1), of E] by simp
    then have "componente V (insert (a, b) E) a = ?AB"
      using componente_insert [OF assms(1,2) assms(1), of E] by simp
    with 1 assms(1) show ?thesis by blast
  next
    case 2
    then obtain w where w: "w \<in> V" and X: "X = componente V E w" by blast
    have "w \<notin> ?A"
      using 2(2) X componente_mem_eq [OF assms(1), of w E] by auto
    moreover have "w \<notin> ?B"
      using 2(3) X componente_mem_eq [OF assms(2), of w E] by auto
    ultimately have "componente V (insert (a, b) E) w = componente V E w"
      using componente_insert [OF assms(1,2) w, of E] by simp
    with X w show ?thesis by blast
  qed
qed

lemma n_componentes_insert:
  assumes "finite V" "a \<in> V" "b \<in> V" "(a, b) \<notin> conexion E"
  shows "Suc (n_componentes V (insert (a, b) E)) = n_componentes V E"
proof -
  let ?K = "componente V E ` V"
  let ?A = "componente V E a" and ?B = "componente V E b"
  have fin: "finite ?K" using assms(1) by simp
  have AK: "?A \<in> ?K" and BK: "?B \<in> ?K" using assms(2,3) by auto
  have AB: "?A \<noteq> ?B"
    using componente_eq_iff [OF assms(2,3), of E] assms(4) by simp
  have notin: "?A \<union> ?B \<notin> ?K - {?A, ?B}"
  proof
    assume "?A \<union> ?B \<in> ?K - {?A, ?B}"
    then obtain w where w: "w \<in> V" and e: "?A \<union> ?B = componente V E w"
      and ne: "?A \<union> ?B \<noteq> ?A"
      by blast
    have "a \<in> componente V E w"
      using componente_self [OF assms(2), of E] e by auto
    then have "componente V E a = componente V E w"
      using componente_mem_eq [OF w, of a E] by simp
    with e ne show False by simp
  qed
  have "card (insert (?A \<union> ?B) (?K - {?A, ?B})) = Suc (card (?K - {?A, ?B}))"
    using fin notin by simp
  also have "card (?K - {?A, ?B}) = card ?K - 2"
    using fin AK BK AB by (simp add: card_Diff_insert)
  finally have c: "card (insert (?A \<union> ?B) (?K - {?A, ?B})) = Suc (card ?K - 2)" .
  have "2 \<le> card ?K"
  proof -
    have "{?A, ?B} \<subseteq> ?K" using AK BK by simp
    then have "card {?A, ?B} \<le> card ?K" using fin by (rule card_mono [rotated])
    with AB show ?thesis by simp
  qed
  with c show ?thesis
    unfolding n_componentes_def componentes_insert [OF assms(2,3,4)] by simp
qed

lemma n_componentes_empty:
  assumes "finite V"
  shows "n_componentes V {} = card V"
proof -
  have "componente V {} u = {u}" if "u \<in> V" for u
    using that by (auto simp: componente_def conexion_empty)
  then have "componente V {} ` V = (\<lambda>u. {u}) ` V" by auto
  moreover have "card ((\<lambda>u. {u}) ` V) = card V"
    by (rule card_image) (simp add: inj_on_def)
  ultimately show ?thesis by (simp add: n_componentes_def)
qed

lemma n_componentes_cong:
  "conexion E = conexion F \<Longrightarrow> n_componentes V E = n_componentes V F"
  by (simp add: n_componentes_def componente_def)

subsection \<open>Forests\<close>

lemma bosque_Nil: "bosque []"
  by (simp add: bosque_def)

lemma bosque_snoc: "bosque (es @ [e]) \<longleftrightarrow> bosque es \<and> e \<notin> conexion (set es)"
  by (auto simp: bosque_def list_all_iff nth_append)

lemma bosque_count:
  assumes "finite V"
  shows "bosque es \<Longrightarrow> set es \<subseteq> V \<times> V \<Longrightarrow> length es + n_componentes V (set es) = card V"
proof (induction es rule: rev_induct)
  case Nil
  then show ?case using n_componentes_empty [OF assms] by simp
next
  case (snoc e es)
  obtain a b where e: "e = (a, b)" by (cases e)
  from snoc.prems have b: "bosque es" and n: "(a, b) \<notin> conexion (set es)"
    and s: "set es \<subseteq> V \<times> V" and ab: "a \<in> V" "b \<in> V"
    by (auto simp: bosque_snoc e)
  from n_componentes_insert [OF assms ab n]
  have "Suc (n_componentes V (set (es @ [e]))) = n_componentes V (set es)"
    by (simp add: e)
  with snoc.IH [OF b s] show ?case by simp
qed

subsection \<open>The greedy choice\<close>

lemma elegir_bosque: "bosque elegidas \<Longrightarrow> bosque (elegir elegidas es)"
  by (induction es arbitrary: elegidas) (simp_all add: bosque_snoc)

lemma elegir_conexion:
  "conexion (set (elegir elegidas es)) = conexion (set elegidas \<union> set es)"
proof (induction es arbitrary: elegidas)
  case Nil
  then show ?case by simp
next
  case (Cons e es)
  obtain a b where e: "e = (a, b)" by (cases e)
  show ?case
  proof (cases "e \<in> conexion (set elegidas)")
    case True
    have m: "conexion (set elegidas) \<subseteq> conexion (set elegidas \<union> set es)"
      by (rule conexion_mono) blast
    with True have "(a, b) \<in> conexion (set elegidas \<union> set es)"
      unfolding e by blast
    then have "conexion (insert (a, b) (set elegidas \<union> set es)) =
               conexion (set elegidas \<union> set es)"
      by (rule conexion_insert_absorb)
    moreover have "set elegidas \<union> set (e # es) = insert (a, b) (set elegidas \<union> set es)"
      by (simp add: e)
    ultimately show ?thesis using True Cons.IH [of elegidas] by simp
  next
    case False
    have "set (elegidas @ [e]) \<union> set es = set elegidas \<union> set (e # es)" by auto
    with False Cons.IH [of "elegidas @ [e]"] show ?thesis by simp
  qed
qed

lemma elegir_subset: "set (elegir elegidas es) \<subseteq> set elegidas \<union> set es"
proof (induction es arbitrary: elegidas)
  case Nil
  then show ?case by simp
next
  case (Cons e es)
  show ?case
    using Cons.IH [of elegidas] Cons.IH [of "elegidas @ [e]"] by auto
qed

subsection \<open>The loop of kruskal makes the greedy choice\<close>

lemma unir_elegir:
  assumes "\<forall>x\<in>set lista. fst (snd x) \<in> V \<and> snd (snd x) \<in> V"
  shows "unir (\<lambda>w. if w \<in> V then Some (componente V (set aam) w) else None) lista aam =
         Inr (elegir aam (map snd lista))"
  using assms
proof (induction lista arbitrary: aam)
  case Nil
  then show ?case by simp
next
  case (Cons x lista)
  obtain c u v where x: "x = (c, u, v)" by (cases x)
  from Cons.prems have uv: "u \<in> V" "v \<in> V"
    and rest: "\<forall>x\<in>set lista. fst (snd x) \<in> V \<and> snd (snd x) \<in> V"
    by (simp_all add: x)
  let ?C = "\<lambda>w. if w \<in> V then Some (componente V (set aam) w) else None"
  let ?A = "componente V (set aam) u" and ?B = "componente V (set aam) v"
  show ?case
  proof (cases "(u, v) \<in> conexion (set aam)")
    case True
    then have "?A = ?B" using componente_eq_iff [OF uv, of "set aam"] by simp
    then have "unir ?C (x # lista) aam = unir ?C lista aam"
      using uv by (simp add: x)
    with True Cons.IH [OF rest, of aam] show ?thesis by (simp add: x)
  next
    case False
    then have ne: "?A \<noteq> ?B" using componente_eq_iff [OF uv, of "set aam"] by simp
    have sub: "?A \<union> ?B \<subseteq> V" using componente_subset [of V "set aam"] by blast
    have C': "(\<lambda>w. if w \<in> ?A \<union> ?B then Some (?A \<union> ?B) else ?C w) =
              (\<lambda>w. if w \<in> V then Some (componente V (set (aam @ [(u, v)])) w) else None)"
    proof
      fix w
      show "(if w \<in> ?A \<union> ?B then Some (?A \<union> ?B) else ?C w) =
            (if w \<in> V then Some (componente V (set (aam @ [(u, v)])) w) else None)"
      proof (cases "w \<in> V")
        case True
        then show ?thesis using componente_insert [OF uv True, of "set aam"] by simp
      next
        case False
        with sub have "w \<notin> ?A \<union> ?B" by blast
        with False show ?thesis by simp
      qed
    qed
    have "unir ?C (x # lista) aam =
          unir (\<lambda>w. if w \<in> ?A \<union> ?B then Some (?A \<union> ?B) else ?C w) lista (aam @ [(u, v)])"
      using uv ne by (simp add: x Let_def)
    also have "\<dots> = Inr (elegir (aam @ [(u, v)]) (map snd lista))"
      unfolding C' by (rule Cons.IH [OF rest])
    finally show ?thesis using False by (simp add: x)
  qed
qed

subsection \<open>The weighted list\<close>

lemma pesar_ok:
  assumes "\<forall>(u, v)\<in>set es. \<exists>c. peso G u v = Inr c"
  shows "\<exists>lista. pesar G peso es = Inr lista \<and> map snd lista = es"
  using assms
proof (induction es)
  case Nil
  then show ?case by simp
next
  case (Cons e es)
  obtain u v where e: "e = (u, v)" by (cases e)
  from Cons.prems obtain c where c: "peso G u v = Inr c" by (auto simp: e)
  from Cons.prems Cons.IH obtain lista where
    l: "pesar G peso es = Inr lista" "map snd lista = es"
    by auto
  show ?case using c l by (simp add: e)
qed

subsection \<open>The ends of the edges are nodes\<close>

lemma aristas_grafo_subset:
  "set (aristas_grafo G ns seen) \<subseteq> {(u, v). u \<in> set ns \<and> v \<in> fst ` set (adj G u)}"
  by (induction ns arbitrary: seen) auto

lemma edges_subset_adj:
  "set (edges G) \<subseteq> {(u, v). u \<in> set (nodes G) \<and> v \<in> fst ` set (adj G u)}"
proof (cases "directed G")
  case True
  then show ?thesis by (auto simp: edges_def)
next
  case False
  then show ?thesis using aristas_grafo_subset [of G "nodes G" "[]"] by (simp add: edges_def)
qed

lemma edges_nodes:
  assumes "wf_graph G"
  shows "set (edges G) \<subseteq> set (nodes G) \<times> set (nodes G)"
proof
  fix e
  assume "e \<in> set (edges G)"
  with edges_subset_adj [of G] obtain u v where
    e: "e = (u, v)" and u: "u \<in> set (nodes G)" and v: "v \<in> fst ` set (adj G u)"
    by blast
  from assms u have "\<forall>v\<in>set (map fst (adj G u)). v \<in> set (nodes G)"
    by (simp add: wf_graph_def list_all_iff)
  with v have "v \<in> set (nodes G)" by auto
  with u e show "e \<in> set (nodes G) \<times> set (nodes G)" by simp
qed

subsection \<open>Edges and adjacency\<close>

lemma aristas_grafo_cubre:
  assumes "u \<in> set ns" "v \<in> set ns" "u \<notin> set seen" "v \<notin> set seen"
    and "v \<in> fst ` set (adj G u)" "u \<in> fst ` set (adj G v)"
  shows "(u, v) \<in> set (aristas_grafo G ns seen) \<or> (v, u) \<in> set (aristas_grafo G ns seen)"
  using assms
proof (induction ns arbitrary: seen)
  case Nil
  then show ?case by simp
next
  case (Cons n ns)
  show ?case
  proof (cases "u = n \<or> v = n")
    case True
    then show ?thesis using Cons.prems by auto
  next
    case False
    then have "u \<in> set ns" "v \<in> set ns" "u \<notin> set (n # seen)" "v \<notin> set (n # seen)"
      using Cons.prems by auto
    from Cons.IH [OF this Cons.prems(5,6)] show ?thesis by auto
  qed
qed

lemma adyacentes_edges:
  assumes "wf_graph G" "directed G \<or> simetrico G"
  shows "adyacentes G \<subseteq> set (edges G) \<union> (set (edges G))\<inverse>"
proof (cases "directed G")
  case True
  then show ?thesis by (auto simp: adyacentes_def edges_def)
next
  case False
  with assms(2) have sim: "simetrico G" by simp
  show ?thesis
  proof
    fix e
    assume "e \<in> adyacentes G"
    then obtain u v where e: "e = (u, v)" and u: "u \<in> set (nodes G)"
      and v: "v \<in> fst ` set (adj G u)"
      by (auto simp: adyacentes_def)
    from assms(1) u v have vn: "v \<in> set (nodes G)"
      by (auto simp: wf_graph_def list_all_iff)
    from sim u v have uv: "u \<in> fst ` set (adj G v)"
      by (auto simp: simetrico_def list_all_iff)
    from aristas_grafo_cubre [OF u vn _ _ v uv, of "[]"] False
    show "e \<in> set (edges G) \<union> (set (edges G))\<inverse>"
      by (auto simp: edges_def e)
  qed
qed

lemma conexion_adyacentes:
  assumes "wf_graph G" "directed G \<or> simetrico G"
  shows "conexion (adyacentes G) = conexion (set (edges G))"
proof -
  have a: "set (edges G) \<subseteq> adyacentes G"
    using edges_subset_adj [of G] by (simp add: adyacentes_def)
  have "adyacentes G \<union> (adyacentes G)\<inverse> = set (edges G) \<union> (set (edges G))\<inverse>"
    using a adyacentes_edges [OF assms] by blast
  then show ?thesis by (simp add: conexion_def)
qed

lemma wf_G_plaza: "wf_graph G_plaza"
  by (simp add: wf_graph_def G_plaza_def)

lemma sim_G_plaza: "simetrico G_plaza"
  by (simp add: simetrico_def G_plaza_def)

lemma edges_G_plaza: "edges G_plaza = [(1, 2), (1, 4), (1, 3), (2, 3), (3, 4), (5, 6)]"
  by (simp add: edges_def G_plaza_def)

lemma pesos_G_plaza: "\<forall>(u, v)\<in>set (edges G_plaza). \<exists>c. mas_corto G_plaza u v = Inr c"
  unfolding edges_G_plaza by (simp add: mas_corto_def edge_attrs_def G_plaza_def tramo_def)

subsection \<open>The spanning forest\<close>

text \<open>
  C4.  On a graph as networkx keeps it, directed or with a symmetric adjacency, and with
  a weight function that gives a weight for every edge, \<open>kruskal\<close> returns a list
  \<open>aam\<close> of \<open>|V| - k\<close> edges, where \<open>k\<close> is the number of connected components of the
  graph.  The edges are taken by ascending weight, and edges of the same weight in the
  order in which \<open>G.edges\<close> gives them (the sorted list is sorted by weight and keeps
  that order among equal weights).  An edge is added exactly when its ends are not
  connected by the edges added before (\<open>elegir\<close>), so no edge of the result closes a
  cycle (\<open>bosque\<close>), and the result connects the same nodes as the graph does.
\<close>

theorem kruskal_bosque_abarcador:
  assumes "wf_graph G" and "directed G \<or> simetrico G"
    and "\<forall>(u, v)\<in>set (edges G). \<exists>c. peso G u v = Inr c"
  shows "\<exists>lista aam.
           pesar G peso (edges G) = Inr lista \<and> map snd lista = edges G \<and>
           kruskal G peso = Inr aam \<and>
           sorted (map fst (sort_key fst lista)) \<and>
           (\<forall>k. filter (\<lambda>x. fst x = k) (sort_key fst lista) = filter (\<lambda>x. fst x = k) lista) \<and>
           aam = elegir [] (map snd (sort_key fst lista)) \<and>
           bosque aam \<and>
           conexion (set aam) = conexion (adyacentes G) \<and>
           length aam = length (nodes G) - n_componentes (set (nodes G)) (adyacentes G)"
proof -
  let ?V = "set (nodes G)"
  from pesar_ok [of "edges G" peso G] assms(3) obtain lista where
    l: "pesar G peso (edges G) = Inr lista" and m: "map snd lista = edges G"
    by blast
  let ?ord = "sort_key fst lista"
  let ?aam = "elegir [] (map snd ?ord)"
  have so: "set (map snd ?ord) = set (edges G)"
    using m by (metis set_map set_sort)
  have inV: "\<forall>x\<in>set ?ord. fst (snd x) \<in> ?V \<and> snd (snd x) \<in> ?V"
  proof
    fix x
    assume "x \<in> set ?ord"
    then have "snd x \<in> set (map snd ?ord)" by simp
    with so edges_nodes [OF assms(1)] have "snd x \<in> ?V \<times> ?V" by blast
    then show "fst (snd x) \<in> ?V \<and> snd (snd x) \<in> ?V" by (simp add: mem_Times_iff)
  qed
  have C0: "(\<lambda>v. if v \<in> ?V then Some {v} else None) =
            (\<lambda>w. if w \<in> ?V then Some (componente ?V (set []) w) else None)"
    by (auto simp: componente_def conexion_empty)
  have k: "kruskal G peso = Inr ?aam"
    unfolding kruskal_def l C0 using unir_elegir [OF inV, of "[]"] by simp
  have b: "bosque ?aam" by (rule elegir_bosque) (rule bosque_Nil)
  have c: "conexion (set ?aam) = conexion (adyacentes G)"
    using elegir_conexion [of "[]" "map snd ?ord"] so
      conexion_adyacentes [OF assms(1,2)] by simp
  have sub: "set ?aam \<subseteq> ?V \<times> ?V"
    using elegir_subset [of "[]" "map snd ?ord"] so edges_nodes [OF assms(1)] by auto
  have "length ?aam + n_componentes ?V (set ?aam) = card ?V"
    by (rule bosque_count [OF _ b sub]) simp
  moreover have "n_componentes ?V (set ?aam) = n_componentes ?V (adyacentes G)"
    using c by (rule n_componentes_cong)
  moreover have "card ?V = length (nodes G)"
    using assms(1) by (simp add: wf_graph_def distinct_card)
  ultimately have len: "length ?aam = length (nodes G) - n_componentes ?V (adyacentes G)"
    by simp
  have st: "\<forall>k. filter (\<lambda>x. fst x = k) ?ord = filter (\<lambda>x. fst x = k) lista"
    by (simp add: sort_key_stable)
  show ?thesis
    using l m k b c len st by (intro exI [of _ lista] exI [of _ ?aam]) simp
qed

lemma kruskal_G_plaza: "kruskal G_plaza mas_corto = Inr [(1, 4), (2, 3), (1, 3), (5, 6)]"
  by code_simp

theorem kruskal_bosque_abarcador_witness:
  "wf_graph G_plaza \<and> simetrico G_plaza \<and>
   kruskal G_plaza mas_corto = Inr [(1, 4), (2, 3), (1, 3), (5, 6)] \<and>
   bosque ([(1, 4), (2, 3), (1, 3), (5, 6)] :: (nat \<times> nat) list) \<and>
   conexion (set ([(1, 4), (2, 3), (1, 3), (5, 6)] :: (nat \<times> nat) list)) = conexion (adyacentes G_plaza) \<and>
   length ([(1, 4), (2, 3), (1, 3), (5, 6)] :: (nat \<times> nat) list) =
     length (nodes G_plaza) - n_componentes (set (nodes G_plaza)) (adyacentes G_plaza)"
proof -
  have s: "directed G_plaza \<or> simetrico G_plaza" using sim_G_plaza by simp
  from kruskal_bosque_abarcador [where G = G_plaza and peso = mas_corto, OF wf_G_plaza s pesos_G_plaza]
  obtain aam where "kruskal G_plaza mas_corto = Inr aam" "bosque aam"
    "conexion (set aam) = conexion (adyacentes G_plaza)"
    "length aam = length (nodes G_plaza) - n_componentes (set (nodes G_plaza)) (adyacentes G_plaza)"
    by blast
  moreover from this(1) have "aam = [(1, 4), (2, 3), (1, 3), (5, 6)]"
    unfolding kruskal_G_plaza by simp
  ultimately show ?thesis
    using wf_G_plaza sim_G_plaza kruskal_G_plaza by simp
qed

section \<open>Prim\<close>

subsection \<open>The least entry\<close>



subsection \<open>Crossing from a set of nodes\<close>


subsection \<open>The invariant of the loop of prim\<close>











subsection \<open>The loop of prim ends with the invariant\<close>




subsection \<open>The first loop sets up the invariant\<close>

lemma iniciar_en_Q: "p_en_Q (iniciar vs st) = p_en_Q st"
  by (induction vs arbitrary: st) simp_all







subsection \<open>The parent map read as roots and edges\<close>





subsection \<open>The result of prim\<close>










end
